theory Spec2Isabelle
  imports Complex_Main "HOL-Library.Sublist"
begin

section \<open>Python exceptions as values\<close>

datatype error =
  KeyError | IndexError | ValueError | ZeroDivisionError | LinAlgError | OverflowError

text \<open>Sequencing: an exception raised by the first step skips the rest.\<close>

definition entao :: "error + 'a \<Rightarrow> ('a \<Rightarrow> error + 'b) \<Rightarrow> error + 'b" where
  "entao r f = (case r of Inl e \<Rightarrow> Inl e | Inr x \<Rightarrow> f x)"

lemma entao_Inr [simp]: "entao (Inr x) f = f x"
  by (simp add: entao_def)

lemma entao_Inl [simp]: "entao (Inl e) f = Inl e"
  by (simp add: entao_def)

section \<open>VRM model of Dou et al. (analisador\_dou.py)\<close>

text \<open>
  \<^verbatim>\<open>AnalisadorDou(variaveis_dict, manual_coefficients, var_dependencies)\<close>.
  The dictionary \<^verbatim>\<open>variaveis_dict\<close> is an association list in insertion order (the order
  drives every loop over \<^verbatim>\<open>self.variaveis\<close>); of each entry only the field
  \<^verbatim>\<open>"frequencia"\<close> is read by the analyser, so an entry is the pair of the qualified
  variable name and that frequency. \<^verbatim>\<open>var_dependencies\<close> maps a variable to the set of
  variables it depends on. Python floats are idealised as reals.
\<close>

type_synonym variaveis_dict = "(string \<times> int) list"
type_synonym var_dependencies = "string \<rightharpoonup> string set"
type_synonym profundidades = "string \<Rightarrow> int"

text \<open>The state of the breadth-first loop: \<^verbatim>\<open>profundidades\<close>, \<^verbatim>\<open>visitados\<close>, \<^verbatim>\<open>fila\<close>.\<close>

type_synonym estado_bfs = "profundidades \<times> string set \<times> string list"

definition eh_raiz :: "var_dependencies \<Rightarrow> string \<Rightarrow> bool" where
  \<comment> \<open>\<^verbatim>\<open>var not in self.var_dependencies or len(self.var_dependencies[var]) == 0\<close>\<close>
  "eh_raiz deps var = (case deps var of None \<Rightarrow> True | Some ds \<Rightarrow> ds = {})"

definition nos_raiz :: "string list \<Rightarrow> var_dependencies \<Rightarrow> string set" where
  "nos_raiz variaveis deps = set (filter (eh_raiz deps) variaveis)"

text \<open>
  The body of \<^verbatim>\<open>for var_dependente in self.variaveis\<close> for one dependent variable:
  a first visit sets the depth and enqueues, a later one keeps the larger depth and does
  not enqueue again.
\<close>

fun relaxa :: "var_dependencies \<Rightarrow> string \<Rightarrow> int \<Rightarrow> string \<Rightarrow> estado_bfs \<Rightarrow> estado_bfs" where
  "relaxa deps var_atual prof_atual var_dependente (prof, vis, fila) =
     (case deps var_dependente of
        None \<Rightarrow> (prof, vis, fila)
      | Some ds \<Rightarrow>
          if var_atual \<in> ds then
            (let nova_prof = prof_atual + 1 in
             if var_dependente \<notin> vis
             then (prof(var_dependente := nova_prof), insert var_dependente vis,
                   fila @ [var_dependente])
             else (prof(var_dependente := max (prof var_dependente) nova_prof), vis, fila))
          else (prof, vis, fila))"

lemma relaxa_medida:
  assumes "var_dependente \<in> set variaveis"
    and "relaxa deps va pa var_dependente (prof, vis, fila) = (prof', vis', fila')"
  shows "2 * card (set variaveis - vis') + length fila'
         \<le> 2 * card (set variaveis - vis) + length fila"
proof (cases "vis' = vis")
  case True
  with assms(2) have "length fila' = length fila"
    by (auto split: option.splits if_splits simp: Let_def)
  with True show ?thesis by simp
next
  case False
  with assms(2) have nv: "var_dependente \<notin> vis" and v': "vis' = insert var_dependente vis"
    and f': "fila' = fila @ [var_dependente]"
    by (auto split: option.splits if_splits simp: Let_def)
  have "set variaveis - vis' = (set variaveis - vis) - {var_dependente}"
    using v' by auto
  moreover have "var_dependente \<in> set variaveis - vis" using assms(1) nv by simp
  ultimately have "card (set variaveis - vis') + 1 = card (set variaveis - vis)"
    by (metis List.finite_set Suc_eq_plus1 card_Suc_Diff1 finite_Diff)
  with f' show ?thesis by simp
qed

lemma fold_relaxa_medida:
  assumes "set ds \<subseteq> set variaveis"
    and "fold (relaxa deps va pa) ds (prof, vis, fila) = (prof', vis', fila')"
  shows "2 * card (set variaveis - vis') + length fila'
         \<le> 2 * card (set variaveis - vis) + length fila"
  using assms
proof (induction ds arbitrary: prof vis fila)
  case Nil
  then show ?case by simp
next
  case (Cons d ds)
  obtain p1 v1 f1 where s1: "relaxa deps va pa d (prof, vis, fila) = (p1, v1, f1)"
    by (metis prod_cases3)
  have "2 * card (set variaveis - v1) + length f1
        \<le> 2 * card (set variaveis - vis) + length fila"
    using relaxa_medida [OF _ s1] Cons.prems(1) by simp
  moreover have "2 * card (set variaveis - vis') + length fila'
        \<le> 2 * card (set variaveis - v1) + length f1"
    using Cons.IH [of p1 v1 f1] Cons.prems s1 by simp
  ultimately show ?case by linarith
qed

text \<open>
  \<^verbatim>\<open>while fila: var_atual = fila.pop(0); prof_atual = profundidades[var_atual]; for ...\<close>.
  The loop ends because every variable is enqueued at most once.
\<close>

function bfs :: "string list \<Rightarrow> var_dependencies \<Rightarrow> estado_bfs \<Rightarrow> profundidades" where
  "bfs variaveis deps (prof, vis, []) = prof"
| "bfs variaveis deps (prof, vis, var_atual # fila) =
     bfs variaveis deps (fold (relaxa deps var_atual (prof var_atual)) variaveis (prof, vis, fila))"
  by pat_completeness auto
termination
proof (relation "measure (\<lambda>(variaveis, deps, prof, vis, fila).
                   2 * card (set variaveis - vis) + length fila)", goal_cases)
  case 1
  show ?case by simp
next
  case (2 variaveis deps prof vis var_atual fila)
  obtain p' v' f' where s: "fold (relaxa deps var_atual (prof var_atual)) variaveis (prof, vis, fila)
      = (p', v', f')"
    by (metis prod_cases3)
  from fold_relaxa_medida [OF subset_refl s] show ?case
    by (simp add: s)
qed

text \<open>
  \<^verbatim>\<open>_calcular_profundidades_arvore\<close>. \<^verbatim>\<open>fila = list(nos_raiz)\<close> enumerates a Python set,
  in an order the language does not fix: the enumeration is the parameter \<open>fila0\<close>, which
  lists the root set without repetition.
\<close>

definition enumera_raizes :: "string list \<Rightarrow> var_dependencies \<Rightarrow> string list \<Rightarrow> bool" where
  "enumera_raizes variaveis deps fila0 \<longleftrightarrow>
     distinct fila0 \<and> set fila0 = nos_raiz variaveis deps"

definition calcular_profundidades_arvore ::
  "string list \<Rightarrow> var_dependencies \<Rightarrow> string list \<Rightarrow> profundidades" where
  "calcular_profundidades_arvore variaveis deps fila0 =
     bfs variaveis deps (\<lambda>_. 0, nos_raiz variaveis deps, fila0)"


text \<open>
  \<^verbatim>\<open>_calcular_coeficientes\<close>. A dictionary read \<^verbatim>\<open>d[k]\<close> raises \<^verbatim>\<open>KeyError\<close> on a
  missing key.
\<close>

definition busca :: "('k \<rightharpoonup> 'v) \<Rightarrow> 'k \<Rightarrow> error + 'v" where
  "busca d k = (case d k of None \<Rightarrow> Inl KeyError | Some v \<Rightarrow> Inr v)"

record coeficientes =
  mc_values :: "string \<rightharpoonup> real"
  sc_values :: "string \<rightharpoonup> real"
  hc_values :: "string \<rightharpoonup> real"

definition media :: "int list \<Rightarrow> real" where
  \<comment> \<open>\<^verbatim>\<open>np.mean\<close> of a non-empty array\<close>
  "media xs = real_of_int (sum_list xs) / real (length xs)"

definition desvio_padrao :: "int list \<Rightarrow> real" where
  \<comment> \<open>\<^verbatim>\<open>math.sqrt(soma_quadrados / N) if N > 0 else 0.0\<close>\<close>
  "desvio_padrao frequencias =
     (let mi = media frequencias;
          N = length frequencias;
          soma_quadrados = sum_list (map (\<lambda>x. (real_of_int x - mi)\<^sup>2) frequencias)
      in if N > 0 then sqrt (soma_quadrados / real N) else 0)"

text \<open>
  \<^verbatim>\<open>(dep_i + 1) * (1.0 / (2.0 ** (dep_i - 1)))\<close>. Python's float power raises
  \<^verbatim>\<open>OverflowError\<close> when the result exceeds the largest double, that is from \<^verbatim>\<open>2.0 ** 1024\<close>
  on; below that a power of two is an exact double. Depths are never negative
  (lemma \<open>profundidades_nao_negativas\<close>), so the exponent is at least \<open>-1\<close>.
\<close>

definition HC_de_profundidade :: "int \<Rightarrow> error + real" where
  "HC_de_profundidade dep_i =
     (if 1024 \<le> dep_i - 1 then Inl OverflowError
      else Inr ((real_of_int dep_i + 1) * (1 / (2 powi (dep_i - 1)))))"

text \<open>
  The loop \<^verbatim>\<open>for var in self.variaveis: self.hc_values[var] = ...\<close>: the first variable
  whose power overflows ends it with the exception.
\<close>

fun laco_hc :: "profundidades \<Rightarrow> string list \<Rightarrow> (string \<rightharpoonup> real) \<Rightarrow> error + (string \<rightharpoonup> real)" where
  "laco_hc profs [] hcs = Inr hcs"
| "laco_hc profs (var # resto) hcs =
     entao (HC_de_profundidade (profs var)) (\<lambda>h. laco_hc profs resto (hcs(var \<mapsto> h)))"

definition calcular_coeficientes ::
  "variaveis_dict \<Rightarrow> (string \<rightharpoonup> real) \<Rightarrow> var_dependencies \<Rightarrow> string list
   \<Rightarrow> error + coeficientes" where
  "calcular_coeficientes vd manual_coefficients deps fila0 =
     (let variaveis = map fst vd;
          frequencias = map snd vd;
          desvio = desvio_padrao frequencias;
          mcs = fold (\<lambda>var m. m(var \<mapsto> (case manual_coefficients var of
                                              None \<Rightarrow> 1 | Some c \<Rightarrow> c)))
                     variaveis Map.empty
      in if frequencias = [] then Inl ValueError
           \<comment> \<open>the statistics line prints \<^verbatim>\<open>frequencias.min()\<close>, which numpy refuses
               for an empty array\<close>
         else
           (let scs = fold (\<lambda>(var, Xi) m. m(var \<mapsto> real_of_int Xi + desvio)) vd Map.empty;
                profs = calcular_profundidades_arvore variaveis deps fila0
            in entao (laco_hc profs variaveis Map.empty) (\<lambda>hcs.
                 Inr \<lparr>mc_values = mcs, sc_values = scs, hc_values = hcs\<rparr>)))"

text \<open>\<^verbatim>\<open>_calcular_acoplamento_vrm\<close>: the loop, then the aggregates.\<close>

record detalhe_var =
  variavel :: string
  xi :: int
  mc :: real
  sc :: real
  hc :: real
  acoplamento :: real

record resultado_dou =
  C_vrm :: real
  C_medio :: real
  HC_medio :: real
  SC_medio :: real
  detalhado :: "detalhe_var list"

type_synonym acumulador = "real \<times> real \<times> real \<times> detalhe_var list"

fun laco_acoplamento ::
  "coeficientes \<Rightarrow> variaveis_dict \<Rightarrow> string list \<Rightarrow> acumulador \<Rightarrow> error + acumulador" where
  "laco_acoplamento cs vd [] acc = Inr acc"
| "laco_acoplamento cs vd (var # resto) (acoplamento_total, sc_total, hc_total, det) =
     entao (busca (mc_values cs) var) (\<lambda>m.
     entao (busca (sc_values cs) var) (\<lambda>s.
     entao (busca (hc_values cs) var) (\<lambda>h.
     entao (busca (map_of vd) var) (\<lambda>freq.
        laco_acoplamento cs vd resto
          (acoplamento_total + (m + s + h), sc_total + s, hc_total + h,
           det @ [\<lparr>variavel = var, xi = freq, mc = m, sc = s, hc = h,
                    acoplamento = m + s + h\<rparr>])))))"

definition calcular_acoplamento_vrm ::
  "coeficientes \<Rightarrow> variaveis_dict \<Rightarrow> error + resultado_dou" where
  "calcular_acoplamento_vrm cs vd =
     (let n = length vd in
      case laco_acoplamento cs vd (map fst vd) (0, 0, 0, []) of
        Inl e \<Rightarrow> Inl e
      | Inr (acoplamento_total, sc_total, hc_total, det) \<Rightarrow>
          if n = 0 then Inl ZeroDivisionError
            \<comment> \<open>\<^verbatim>\<open>float(acoplamento_total / self.n)\<close> has no guard\<close>
          else Inr \<lparr>C_vrm = acoplamento_total,
                    C_medio = acoplamento_total / real n,
                    HC_medio = (if n > 0 then hc_total / real n else 0),
                    SC_medio = (if n > 0 then sc_total / real n else 0),
                    detalhado = det\<rparr>)"

definition AnalisadorDou ::
  "variaveis_dict \<Rightarrow> (string \<rightharpoonup> real) \<Rightarrow> var_dependencies \<Rightarrow> string list
   \<Rightarrow> error + resultado_dou" where
  "AnalisadorDou vd manual_coefficients deps fila0 =
     entao (calcular_coeficientes vd manual_coefficients deps fila0)
       (\<lambda>cs. calcular_acoplamento_vrm cs vd)"


section \<open>Properties of the VRM model\<close>

text \<open>Reachability from the root set along "depends on" edges, as the loop follows them.\<close>

inductive alcancavel :: "string list \<Rightarrow> var_dependencies \<Rightarrow> string \<Rightarrow> bool"
  for variaveis deps where
  raiz: "var \<in> nos_raiz variaveis deps \<Longrightarrow> alcancavel variaveis deps var"
| passo: "alcancavel variaveis deps b \<Longrightarrow> a \<in> set variaveis \<Longrightarrow> deps a = Some ds \<Longrightarrow> b \<in> ds
          \<Longrightarrow> alcancavel variaveis deps a"

definition inv_bfs :: "string list \<Rightarrow> var_dependencies \<Rightarrow> estado_bfs \<Rightarrow> bool" where
  "inv_bfs variaveis deps st \<longleftrightarrow>
     (case st of (prof, vis, fila) \<Rightarrow>
        (\<forall>x\<in>vis. alcancavel variaveis deps x) \<and> set fila \<subseteq> vis \<and>
        (\<forall>x. x \<notin> vis \<longrightarrow> prof x = 0) \<and> (\<forall>x. eh_raiz deps x \<longrightarrow> prof x = 0))"

lemma relaxa_inv:
  assumes "inv_bfs variaveis deps st" "alcancavel variaveis deps va" "d \<in> set variaveis"
  shows "inv_bfs variaveis deps (relaxa deps va pa d st)"
proof -
  obtain prof vis fila where st: "st = (prof, vis, fila)" by (metis prod_cases3)
  show ?thesis
  proof (cases "deps d")
    case None
    then show ?thesis using assms(1) st by simp
  next
    case (Some ds)
    show ?thesis
    proof (cases "va \<in> ds")
      case False
      then show ?thesis using assms(1) st Some by simp
    next
      case True
      have alc: "alcancavel variaveis deps d"
        using alcancavel.passo [OF assms(2) assms(3) Some True] .
      have nraiz: "\<not> eh_raiz deps d" using Some True by (auto simp: eh_raiz_def)
      show ?thesis using assms(1) st Some True alc nraiz
        by (auto simp: inv_bfs_def Let_def)
    qed
  qed
qed

lemma fold_relaxa_inv:
  assumes "inv_bfs variaveis deps st" "alcancavel variaveis deps va" "set ds \<subseteq> set variaveis"
  shows "inv_bfs variaveis deps (fold (relaxa deps va pa) ds st)"
  using assms
proof (induction ds arbitrary: st)
  case Nil
  then show ?case by simp
next
  case (Cons d ds)
  have "inv_bfs variaveis deps (relaxa deps va pa d st)"
    using Cons.prems by (intro relaxa_inv) simp_all
  from Cons.IH [OF this Cons.prems(2)] Cons.prems(3) show ?case by simp
qed

lemma bfs_inv:
  assumes "inv_bfs variaveis deps st"
  shows "(\<forall>x. \<not> alcancavel variaveis deps x \<longrightarrow> bfs variaveis deps st x = 0) \<and>
         (\<forall>x. eh_raiz deps x \<longrightarrow> bfs variaveis deps st x = 0)"
  using assms
proof (induction variaveis deps st rule: bfs.induct)
  case (1 variaveis deps prof vis)
  then show ?case by (auto simp: inv_bfs_def)
next
  case (2 variaveis deps prof vis var_atual fila)
  have "alcancavel variaveis deps var_atual" using "2.prems" by (auto simp: inv_bfs_def)
  moreover have "inv_bfs variaveis deps (prof, vis, fila)" using "2.prems" by (auto simp: inv_bfs_def)
  ultimately have "inv_bfs variaveis deps
      (fold (relaxa deps var_atual (prof var_atual)) variaveis (prof, vis, fila))"
    by (intro fold_relaxa_inv) auto
  from "2.IH" [OF this] show ?case by simp
qed

lemma profundidades_inv:
  assumes "set fila0 \<subseteq> nos_raiz variaveis deps"
  shows "(\<forall>x. \<not> alcancavel variaveis deps x \<longrightarrow> calcular_profundidades_arvore variaveis deps fila0 x = 0) \<and>
         (\<forall>x. eh_raiz deps x \<longrightarrow> calcular_profundidades_arvore variaveis deps fila0 x = 0)"
  unfolding calcular_profundidades_arvore_def
  by (rule bfs_inv) (use assms in \<open>auto simp: inv_bfs_def intro: alcancavel.raiz\<close>)

lemma fold_upd_lookup:
  "fold (\<lambda>var m. m(var \<mapsto> f var)) vars m0 v = (if v \<in> set vars then Some (f v) else m0 v)"
  by (induction vars arbitrary: m0) auto

lemma fold_upd_par_lookup:
  "distinct (map fst vd) \<Longrightarrow>
   fold (\<lambda>(var, X) m. m(var \<mapsto> g X)) vd m0 v =
     (case map_of vd v of Some X \<Rightarrow> Some (g X) | None \<Rightarrow> m0 v)"
proof (induction vd arbitrary: m0)
  case Nil
  then show ?case by simp
next
  case (Cons p vd)
  obtain a X where p: "p = (a, X)" by (cases p)
  have "a \<notin> fst ` set vd" using Cons.prems p by simp
  then have "map_of vd a = None" by (simp add: map_of_eq_None_iff)
  then show ?case using Cons p by (auto split: option.splits)
qed


text \<open>Depths are never negative.\<close>

lemma relaxa_nao_negativa:
  assumes "\<forall>x. 0 \<le> fst st x" and "0 \<le> pa"
  shows "\<forall>x. 0 \<le> fst (relaxa deps va pa d st) x"
proof -
  obtain prof vis fila where st: "st = (prof, vis, fila)" by (metis prod_cases3)
  show ?thesis using assms unfolding st
    by (auto simp: Let_def split: option.splits)
qed

lemma fold_relaxa_nao_negativa:
  assumes "\<forall>x. 0 \<le> fst st x" and "0 \<le> pa"
  shows "\<forall>x. 0 \<le> fst (fold (relaxa deps va pa) ds st) x"
  using assms(1)
proof (induction ds arbitrary: st)
  case Nil
  then show ?case by simp
next
  case (Cons d ds)
  have "\<forall>x. 0 \<le> fst (relaxa deps va pa d st) x"
    using Cons.prems assms(2) by (rule relaxa_nao_negativa)
  from Cons.IH [OF this] show ?case by simp
qed

lemma bfs_nao_negativa:
  "\<forall>x. 0 \<le> fst st x \<Longrightarrow> 0 \<le> bfs variaveis deps st y"
proof (induction variaveis deps st rule: bfs.induct)
  case (1 variaveis deps prof vis)
  then show ?case by simp
next
  case (2 variaveis deps prof vis var_atual fila)
  have "\<forall>x. 0 \<le> fst (fold (relaxa deps var_atual (prof var_atual)) variaveis (prof, vis, fila)) x"
    using "2.prems" by (intro fold_relaxa_nao_negativa) simp_all
  from "2.IH" [OF this] show ?case by simp
qed

lemma profundidades_nao_negativas:
  "0 \<le> calcular_profundidades_arvore variaveis deps fila0 var"
  unfolding calcular_profundidades_arvore_def by (rule bfs_nao_negativa) simp

text \<open>
  The value of the hierarchical coefficient where the float power does not overflow, and
  the analyses whose depths all stay in that range.
\<close>

definition valor_HC :: "int \<Rightarrow> real" where
  "valor_HC dep_i = (real_of_int dep_i + 1) * (1 / (2 powi (dep_i - 1)))"

definition profundidades_representaveis ::
  "variaveis_dict \<Rightarrow> var_dependencies \<Rightarrow> string list \<Rightarrow> bool" where
  "profundidades_representaveis vd deps fila0 \<longleftrightarrow>
     list_all (\<lambda>var. calcular_profundidades_arvore (map fst vd) deps fila0 var \<le> 1024)
              (map fst vd)"

lemma HC_de_profundidade_valor:
  "dep_i \<le> 1024 \<Longrightarrow> HC_de_profundidade dep_i = Inr (valor_HC dep_i)"
  by (simp add: HC_de_profundidade_def valor_HC_def)

lemma HC_de_profundidade_overflow:
  "1025 \<le> dep_i \<Longrightarrow> HC_de_profundidade dep_i = Inl OverflowError"
  by (simp add: HC_de_profundidade_def)

lemma laco_hc_ok:
  "list_all (\<lambda>var. profs var \<le> 1024) vars \<Longrightarrow>
   laco_hc profs vars hcs = Inr (fold (\<lambda>var m. m(var \<mapsto> valor_HC (profs var))) vars hcs)"
  by (induction vars arbitrary: hcs) (simp_all add: HC_de_profundidade_valor)

lemma laco_hc_overflow:
  "\<not> list_all (\<lambda>var. profs var \<le> 1024) vars \<Longrightarrow> laco_hc profs vars hcs = Inl OverflowError"
proof (induction vars arbitrary: hcs)
  case Nil
  then show ?case by simp
next
  case (Cons var vars)
  show ?case
  proof (cases "profs var \<le> 1024")
    case True
    then show ?thesis using Cons by (simp add: HC_de_profundidade_valor)
  next
    case False
    then show ?thesis by (simp add: HC_de_profundidade_overflow)
  qed
qed

definition linha_dou :: "(string \<rightharpoonup> real) \<Rightarrow> real \<Rightarrow> profundidades \<Rightarrow> string \<times> int \<Rightarrow> detalhe_var" where
  "linha_dou mcs desvio profs p =
     (let m = (case mcs (fst p) of None \<Rightarrow> 1 | Some c \<Rightarrow> c);
          s = real_of_int (snd p) + desvio;
          h = valor_HC (profs (fst p))
      in \<lparr>variavel = fst p, xi = snd p, mc = m, sc = s, hc = h, acoplamento = m + s + h\<rparr>)"

lemma laco_acoplamento_ok:
  assumes "\<forall>p\<in>set ps. mc_values cs (fst p) = Some (mc (L p)) \<and> sc_values cs (fst p) = Some (sc (L p))
             \<and> hc_values cs (fst p) = Some (hc (L p)) \<and> map_of vd (fst p) = Some (xi (L p))
             \<and> variavel (L p) = fst p \<and> acoplamento (L p) = mc (L p) + sc (L p) + hc (L p)"
  shows "laco_acoplamento cs vd (map fst ps) (t, s, h, det) =
         Inr (t + sum_list (map (acoplamento \<circ> L) ps), s + sum_list (map (sc \<circ> L) ps),
              h + sum_list (map (hc \<circ> L) ps), det @ map L ps)"
  using assms
proof (induction ps arbitrary: t s h det)
  case Nil
  then show ?case by simp
next
  case (Cons p ps)
  have hd: "mc_values cs (fst p) = Some (mc (L p))" "sc_values cs (fst p) = Some (sc (L p))"
    "hc_values cs (fst p) = Some (hc (L p))" "map_of vd (fst p) = Some (xi (L p))"
    "variavel (L p) = fst p" "acoplamento (L p) = mc (L p) + sc (L p) + hc (L p)"
    using Cons.prems by simp_all
  have eq: "\<lparr>variavel = fst p, xi = xi (L p), mc = mc (L p), sc = sc (L p), hc = hc (L p),
             acoplamento = mc (L p) + sc (L p) + hc (L p)\<rparr> = L p"
    by (cases "L p") (use hd(5,6) in simp)
  note eq' = eq [unfolded add.assoc]
  have tl: "\<forall>p\<in>set ps. mc_values cs (fst p) = Some (mc (L p)) \<and> sc_values cs (fst p) = Some (sc (L p))
             \<and> hc_values cs (fst p) = Some (hc (L p)) \<and> map_of vd (fst p) = Some (xi (L p))
             \<and> variavel (L p) = fst p \<and> acoplamento (L p) = mc (L p) + sc (L p) + hc (L p)"
    using Cons.prems by simp
  show ?case
    by (simp add: busca_def hd(1-4) eq' Cons.IH [OF tl] hd(6) add.assoc)
qed

lemma AnalisadorDou_ok:
  assumes "vd \<noteq> []" "distinct (map fst vd)" "profundidades_representaveis vd deps fila0"
  shows "AnalisadorDou vd mcs deps fila0 =
     (let linhas = map (linha_dou mcs (desvio_padrao (map snd vd))
                          (calcular_profundidades_arvore (map fst vd) deps fila0)) vd
      in Inr \<lparr>C_vrm = sum_list (map acoplamento linhas),
               C_medio = sum_list (map acoplamento linhas) / real (length vd),
               HC_medio = sum_list (map hc linhas) / real (length vd),
               SC_medio = sum_list (map sc linhas) / real (length vd),
               detalhado = linhas\<rparr>)"
proof -
  define desvio where "desvio = desvio_padrao (map snd vd)"
  define profs where "profs = calcular_profundidades_arvore (map fst vd) deps fila0"
  define cs where "cs = \<lparr>mc_values = fold (\<lambda>var m. m(var \<mapsto> (case mcs var of None \<Rightarrow> 1 | Some c \<Rightarrow> c)))
                     (map fst vd) Map.empty,
      sc_values = fold (\<lambda>(var, Xi) m. m(var \<mapsto> real_of_int Xi + desvio)) vd Map.empty,
      hc_values = fold (\<lambda>var m. m(var \<mapsto> valor_HC (profs var))) (map fst vd) Map.empty\<rparr>"
  define L where "L = linha_dou mcs desvio profs"
  have hcs: "laco_hc profs (map fst vd) Map.empty =
        Inr (fold (\<lambda>var m. m(var \<mapsto> valor_HC (profs var))) (map fst vd) Map.empty)"
    using assms(3) unfolding profundidades_representaveis_def profs_def [symmetric]
    by (rule laco_hc_ok)
  have coef: "calcular_coeficientes vd mcs deps fila0 = Inr cs"
    using assms(1)
    by (simp add: calcular_coeficientes_def Let_def cs_def desvio_def profs_def [symmetric] hcs)
  have each: "\<forall>p\<in>set vd. mc_values cs (fst p) = Some (mc (L p)) \<and> sc_values cs (fst p) = Some (sc (L p))
             \<and> hc_values cs (fst p) = Some (hc (L p)) \<and> map_of vd (fst p) = Some (xi (L p))
             \<and> variavel (L p) = fst p \<and> acoplamento (L p) = mc (L p) + sc (L p) + hc (L p)"
  proof
    fix p assume p: "p \<in> set vd"
    then have mo: "map_of vd (fst p) = Some (snd p)" using assms(2) by simp
    have inx: "fst p \<in> fst ` set vd" using p by simp
    show "mc_values cs (fst p) = Some (mc (L p)) \<and> sc_values cs (fst p) = Some (sc (L p))
             \<and> hc_values cs (fst p) = Some (hc (L p)) \<and> map_of vd (fst p) = Some (xi (L p))
             \<and> variavel (L p) = fst p \<and> acoplamento (L p) = mc (L p) + sc (L p) + hc (L p)"
      using mo inx
      by (simp add: cs_def L_def linha_dou_def Let_def fold_upd_lookup
            fold_upd_par_lookup [OF assms(2)])
  qed
  have laco: "laco_acoplamento cs vd (map fst vd) (0, 0, 0, []) =
      Inr (sum_list (map (acoplamento \<circ> L) vd), sum_list (map (sc \<circ> L) vd),
           sum_list (map (hc \<circ> L) vd), map L vd)"
    using laco_acoplamento_ok [OF each, of 0 0 0 "[]"] by simp
  show ?thesis
    using assms(1)
    by (simp add: AnalisadorDou_def coef calcular_acoplamento_vrm_def laco Let_def
          L_def desvio_def profs_def comp_def)
qed


text \<open>
  Without variables the analyser does not return: the statistics line of
  \<^verbatim>\<open>_calcular_coeficientes\<close> raises, and the mean coupling of \<^verbatim>\<open>_calcular_acoplamento_vrm\<close>,
  the one aggregate computed without the guard \<^verbatim>\<open>if self.n > 0\<close>, would divide by zero.
\<close>

lemma AnalisadorDou_sem_variaveis: "AnalisadorDou [] mcs deps fila0 = Inl ValueError"
  by (simp add: AnalisadorDou_def calcular_coeficientes_def Let_def)

lemma calcular_acoplamento_vrm_sem_variaveis:
  "calcular_acoplamento_vrm cs [] = Inl ZeroDivisionError"
  by (simp add: calcular_acoplamento_vrm_def)

text \<open>
  As soon as one depth is 1025 or more the analyser raises instead of returning.
\<close>

lemma AnalisadorDou_overflow:
  assumes "vd \<noteq> []" and "\<not> profundidades_representaveis vd deps fila0"
  shows "AnalisadorDou vd mcs deps fila0 = Inl OverflowError"
  using assms laco_hc_overflow [of "calcular_profundidades_arvore (map fst vd) deps fila0"
                                  "map fst vd" Map.empty]
  by (simp add: AnalisadorDou_def calcular_coeficientes_def Let_def
        profundidades_representaveis_def)

lemma valor_HC_powr:
  "valor_HC d = (real_of_int d + 1) * 2 powr (- (real_of_int d - 1))"
proof -
  have "(2::real) powr (- (real_of_int d - 1)) = 2 powr (- real_of_int (d - 1))" by simp
  also have "\<dots> = inverse (2 powr real_of_int (d - 1))" by (rule powr_minus)
  also have "2 powr real_of_int (d - 1) = (2::real) powi (d - 1)"
    by (rule powr_real_of_int') simp_all
  finally show ?thesis by (simp add: valor_HC_def inverse_eq_divide)
qed

lemma valor_HC_0: "valor_HC 0 = 2"
  by (simp add: valor_HC_def)

definition sem_dependencias :: var_dependencies where
  "sem_dependencias = Map.empty"

definition sem_coeficientes :: "string \<rightharpoonup> real" where
  "sem_coeficientes = Map.empty"

text \<open>
  A concrete analysis. In a function \<^verbatim>\<open>f\<close> of module \<^verbatim>\<open>m\<close> with the body
  \<^verbatim>\<open>bb = rr + aa; aa = rr; cc = bb\<close> the extractor finds the variables in the order
  \<^verbatim>\<open>bb, aa, rr, cc\<close> and the dependencies below; \<^verbatim>\<open>rr\<close> is the only root.
\<close>

definition variaveis_cadeia :: variaveis_dict where
  "variaveis_cadeia = [(''m.f::bb'', 2), (''m.f::aa'', 2), (''m.f::rr'', 2), (''m.f::cc'', 1)]"

definition dependencias_cadeia :: var_dependencies where
  "dependencias_cadeia = [''m.f::bb'' \<mapsto> {''m.f::rr'', ''m.f::aa''},
                          ''m.f::aa'' \<mapsto> {''m.f::rr''},
                          ''m.f::cc'' \<mapsto> {''m.f::bb''}]"

definition coeficientes_cadeia :: "string \<rightharpoonup> real" where
  "coeficientes_cadeia = [''m.f::bb'' \<mapsto> 3 / 2]"

text \<open>
  Claim C2, as the code has it: in every analysis whose depths stay within the range of
  the float power (at most 1024), the hierarchical coefficient of every variable is
  \<open>(dep + 1) * 2^(-(dep - 1))\<close> at every depth; the formula is applied to the roots too,
  where \<open>dep = 0\<close> gives 2 (there is no guard returning 1).
\<close>

theorem hc_all_depths:
  assumes "vd \<noteq> []" and "distinct (map fst vd)"
    and "profundidades_representaveis vd deps fila0" and "(var, X) \<in> set vd"
    and "dep = calcular_profundidades_arvore (map fst vd) deps fila0 var"
  shows "\<exists>r e. AnalisadorDou vd mcs deps fila0 = Inr r \<and> e \<in> set (detalhado r) \<and>
           variavel e = var \<and>
           hc e = (real_of_int dep + 1) * 2 powr (- (real_of_int dep - 1)) \<and>
           (dep = 0 \<longrightarrow> hc e = 2)"
proof -
  define L where "L = linha_dou mcs (desvio_padrao (map snd vd))
                          (calcular_profundidades_arvore (map fst vd) deps fila0)"
  define r where "r = \<lparr>C_vrm = sum_list (map acoplamento (map L vd)),
               C_medio = sum_list (map acoplamento (map L vd)) / real (length vd),
               HC_medio = sum_list (map hc (map L vd)) / real (length vd),
               SC_medio = sum_list (map sc (map L vd)) / real (length vd),
               detalhado = map L vd\<rparr>"
  have ok: "AnalisadorDou vd mcs deps fila0 = Inr r"
    using AnalisadorDou_ok [OF assms(1,2,3), of mcs] by (simp add: Let_def r_def L_def)
  have mem: "L (var, X) \<in> set (detalhado r)" using assms(4) by (simp add: r_def)
  have v: "variavel (L (var, X)) = var" by (simp add: L_def linha_dou_def Let_def)
  have h: "hc (L (var, X)) = valor_HC dep"
    by (simp add: L_def linha_dou_def Let_def assms(5))
  have "hc (L (var, X)) = (real_of_int dep + 1) * 2 powr (- (real_of_int dep - 1))"
    using h valor_HC_powr by simp
  moreover have "dep = 0 \<longrightarrow> hc (L (var, X)) = 2" using h valor_HC_0 by simp
  ultimately show ?thesis using ok mem v by blast
qed

lemma profundidades_cadeia:
  "calcular_profundidades_arvore (map fst variaveis_cadeia) dependencias_cadeia [''m.f::rr'']
     ''m.f::bb'' = 2"
  "calcular_profundidades_arvore (map fst variaveis_cadeia) dependencias_cadeia [''m.f::rr'']
     ''m.f::aa'' = 1"
  "calcular_profundidades_arvore (map fst variaveis_cadeia) dependencias_cadeia [''m.f::rr'']
     ''m.f::rr'' = 0"
  "calcular_profundidades_arvore (map fst variaveis_cadeia) dependencias_cadeia [''m.f::rr'']
     ''m.f::cc'' = 2"
  by (simp_all add: calcular_profundidades_arvore_def nos_raiz_def eh_raiz_def
        dependencias_cadeia_def variaveis_cadeia_def)

lemma representaveis_cadeia:
  "profundidades_representaveis variaveis_cadeia dependencias_cadeia [''m.f::rr'']"
  unfolding profundidades_representaveis_def
  using profundidades_cadeia by (simp add: variaveis_cadeia_def)

theorem hc_all_depths_witness:
  "(\<exists>r e. AnalisadorDou variaveis_cadeia coeficientes_cadeia dependencias_cadeia [''m.f::rr'']
             = Inr r \<and> e \<in> set (detalhado r) \<and> variavel e = ''m.f::rr'' \<and> hc e = 2) \<and>
   (\<exists>r e. AnalisadorDou variaveis_cadeia coeficientes_cadeia dependencias_cadeia [''m.f::rr'']
             = Inr r \<and> e \<in> set (detalhado r) \<and> variavel e = ''m.f::bb'' \<and> hc e = 3 / 2)"
proof -
  have h1: "variaveis_cadeia \<noteq> []" by (simp add: variaveis_cadeia_def)
  have h2: "distinct (map fst variaveis_cadeia)" by (simp add: variaveis_cadeia_def)
  have rr: "(''m.f::rr'', 2) \<in> set variaveis_cadeia" by (simp add: variaveis_cadeia_def)
  have bb: "(''m.f::bb'', 2) \<in> set variaveis_cadeia" by (simp add: variaveis_cadeia_def)
  have meio: "(real_of_int 2 + 1) * 2 powr (- (real_of_int 2 - 1)) = 3 / 2"
    by (simp add: powr_minus_divide)
  from hc_all_depths [OF h1 h2 representaveis_cadeia rr profundidades_cadeia(3) [symmetric],
                      of coeficientes_cadeia]
  have raiz: "\<exists>r e. AnalisadorDou variaveis_cadeia coeficientes_cadeia dependencias_cadeia
             [''m.f::rr''] = Inr r \<and> e \<in> set (detalhado r) \<and> variavel e = ''m.f::rr'' \<and> hc e = 2"
    by blast
  from hc_all_depths [OF h1 h2 representaveis_cadeia bb profundidades_cadeia(1) [symmetric],
                      of coeficientes_cadeia]
  have fundo: "\<exists>r e. AnalisadorDou variaveis_cadeia coeficientes_cadeia dependencias_cadeia
             [''m.f::rr''] = Inr r \<and> e \<in> set (detalhado r) \<and> variavel e = ''m.f::bb'' \<and>
             hc e = 3 / 2"
    unfolding meio by blast
  from raiz fundo show ?thesis by (rule conjI)
qed

text \<open>
  Claim C2 as stated fails at a root: a single variable without dependencies has depth 0
  and receives the coefficient 2, not 1.
\<close>

theorem root_hc_is_two:
  "calcular_profundidades_arvore [''m.f::total''] sem_dependencias [''m.f::total'']
     ''m.f::total'' = 0 \<and>
   AnalisadorDou [(''m.f::total'', 3)] sem_coeficientes sem_dependencias [''m.f::total''] =
     Inr \<lparr>C_vrm = 6, C_medio = 6, HC_medio = 2, SC_medio = 3,
          detalhado = [\<lparr>variavel = ''m.f::total'', xi = 3, mc = 1, sc = 3, hc = 2,
                         acoplamento = 6\<rparr>]\<rparr>"
  by (simp add: AnalisadorDou_def calcular_coeficientes_def calcular_acoplamento_vrm_def
        desvio_padrao_def media_def calcular_profundidades_arvore_def nos_raiz_def eh_raiz_def
        busca_def HC_de_profundidade_def Let_def sem_dependencias_def sem_coeficientes_def)

text \<open>
  Claim C3 (longest-path labelling: the depth of a variable is the maximum of its
  predecessors' depths plus one) does not hold of the loop: \<^verbatim>\<open>cc\<close> depends on \<^verbatim>\<open>bb\<close>
  only, \<^verbatim>\<open>bb\<close> ends at depth 2 (through \<^verbatim>\<open>aa\<close>), and \<^verbatim>\<open>cc\<close> stays at depth 2 instead of
  3, because \<^verbatim>\<open>cc\<close> was labelled from \<^verbatim>\<open>bb\<close> before the longer path raised \<^verbatim>\<open>bb\<close>, and a
  raised depth is not propagated.
\<close>

theorem longer_path_not_propagated:
  "enumera_raizes (map fst variaveis_cadeia) dependencias_cadeia [''m.f::rr''] \<and>
   dependencias_cadeia ''m.f::cc'' = Some {''m.f::bb''} \<and>
   calcular_profundidades_arvore (map fst variaveis_cadeia) dependencias_cadeia [''m.f::rr'']
     ''m.f::bb'' = 2 \<and>
   calcular_profundidades_arvore (map fst variaveis_cadeia) dependencias_cadeia [''m.f::rr'']
     ''m.f::cc'' = 2"
  by (simp add: calcular_profundidades_arvore_def nos_raiz_def eh_raiz_def
        dependencias_cadeia_def variaveis_cadeia_def enumera_raizes_def)

text \<open>
  A set of variables is closed when each member has dependencies and all of them are
  members: a dependency cycle that nothing outside feeds. No root reaches a closed set.
\<close>

definition fechado :: "var_dependencies \<Rightarrow> string set \<Rightarrow> bool" where
  "fechado deps S \<longleftrightarrow> (\<forall>x\<in>S. \<exists>ds. deps x = Some ds \<and> ds \<noteq> {} \<and> ds \<subseteq> S)"

lemma fechado_nao_alcancavel:
  assumes "fechado deps S" and "alcancavel variaveis deps x"
  shows "x \<notin> S"
  using assms(2)
proof (induction rule: alcancavel.induct)
  case (raiz var)
  then have "eh_raiz deps var" by (simp add: nos_raiz_def)
  then show ?case using assms(1) by (auto simp: fechado_def eh_raiz_def split: option.splits)
next
  case (passo b a ds)
  show ?case
  proof
    assume "a \<in> S"
    then obtain ds' where "deps a = Some ds'" "ds' \<subseteq> S"
      using assms(1) unfolding fechado_def by blast
    then have "ds \<subseteq> S" using passo.hyps(3) by simp
    then show False using passo.hyps(4) passo.IH by auto
  qed
qed

text \<open>
  A two-variable dependency cycle beside one root: \<^verbatim>\<open>ping = pong; pong = ping\<close>; and the
  cycle of \<^verbatim>\<open>ping = base + pong; pong = ping\<close>, which the root \<^verbatim>\<open>base\<close> feeds.
\<close>

definition variaveis_ciclo :: variaveis_dict where
  "variaveis_ciclo = [(''m.f::base'', 1), (''m.f::ping'', 2), (''m.f::pong'', 2)]"

definition dependencias_ciclo :: var_dependencies where
  "dependencias_ciclo = [''m.f::ping'' \<mapsto> {''m.f::pong''}, ''m.f::pong'' \<mapsto> {''m.f::ping''}]"

definition variaveis_ciclo_raiz :: variaveis_dict where
  "variaveis_ciclo_raiz = [(''m.f::ping'', 2), (''m.f::pong'', 2), (''m.f::base'', 1)]"

definition dependencias_ciclo_raiz :: var_dependencies where
  "dependencias_ciclo_raiz = [''m.f::ping'' \<mapsto> {''m.f::base'', ''m.f::pong''},
                              ''m.f::pong'' \<mapsto> {''m.f::ping''}]"

text \<open>
  Claim C9, as the code has it: a variable that cannot be reached from the root set along
  dependency edges (so every member of a closed dependency cycle) keeps depth 0, the depth
  of every root, and, in an analysis whose depths are all at most 1024, its hierarchical
  coefficient is the one the roots receive, 2.
\<close>

theorem unreachable_depth_zero:
  assumes "enumera_raizes (map fst vd) deps fila0" and "vd \<noteq> []" and "distinct (map fst vd)"
    and "(var, X) \<in> set vd" and "\<not> alcancavel (map fst vd) deps var"
  shows "calcular_profundidades_arvore (map fst vd) deps fila0 var = 0 \<and>
         (\<forall>raiz\<in>nos_raiz (map fst vd) deps.
            calcular_profundidades_arvore (map fst vd) deps fila0 raiz = 0) \<and>
         (profundidades_representaveis vd deps fila0 \<longrightarrow>
            (\<exists>r e. AnalisadorDou vd mcs deps fila0 = Inr r \<and> e \<in> set (detalhado r) \<and>
               variavel e = var \<and> hc e = 2 \<and>
               (\<forall>e'\<in>set (detalhado r).
                  variavel e' \<in> nos_raiz (map fst vd) deps \<longrightarrow> hc e' = hc e)))"
proof -
  define profs where "profs = calcular_profundidades_arvore (map fst vd) deps fila0"
  have sub: "set fila0 \<subseteq> nos_raiz (map fst vd) deps"
    using assms(1) by (simp add: enumera_raizes_def)
  note inv = profundidades_inv [OF sub, folded profs_def]
  have p0: "profs var = 0" using inv assms(5) by blast
  have r0: "\<forall>raiz\<in>nos_raiz (map fst vd) deps. profs raiz = 0"
    using inv by (auto simp: nos_raiz_def)
  define L where "L = linha_dou mcs (desvio_padrao (map snd vd)) profs"
  define r where "r = \<lparr>C_vrm = sum_list (map acoplamento (map L vd)),
               C_medio = sum_list (map acoplamento (map L vd)) / real (length vd),
               HC_medio = sum_list (map hc (map L vd)) / real (length vd),
               SC_medio = sum_list (map sc (map L vd)) / real (length vd),
               detalhado = map L vd\<rparr>"
  have ok: "AnalisadorDou vd mcs deps fila0 = Inr r"
    if "profundidades_representaveis vd deps fila0"
    using AnalisadorDou_ok [OF assms(2,3) that, of mcs]
    by (simp add: Let_def r_def L_def profs_def)
  have mem: "L (var, X) \<in> set (detalhado r)" using assms(4) by (simp add: r_def)
  have v: "variavel (L (var, X)) = var" by (simp add: L_def linha_dou_def Let_def)
  have h: "hc (L (var, X)) = 2"
    by (simp add: L_def linha_dou_def Let_def p0 valor_HC_0)
  have "\<forall>e'\<in>set (detalhado r). variavel e' \<in> nos_raiz (map fst vd) deps
          \<longrightarrow> hc e' = hc (L (var, X))"
    using r0 h by (auto simp: r_def L_def linha_dou_def Let_def valor_HC_0)
  with ok mem v h p0 r0 show ?thesis unfolding profs_def by blast
qed

lemma profundidades_ciclo:
  "calcular_profundidades_arvore (map fst variaveis_ciclo) dependencias_ciclo [''m.f::base'']
     ''m.f::base'' = 0"
  "calcular_profundidades_arvore (map fst variaveis_ciclo) dependencias_ciclo [''m.f::base'']
     ''m.f::ping'' = 0"
  "calcular_profundidades_arvore (map fst variaveis_ciclo) dependencias_ciclo [''m.f::base'']
     ''m.f::pong'' = 0"
  by (simp_all add: calcular_profundidades_arvore_def nos_raiz_def eh_raiz_def
        dependencias_ciclo_def variaveis_ciclo_def)

theorem unreachable_depth_zero_witness:
  "fechado dependencias_ciclo {''m.f::ping'', ''m.f::pong''} \<and>
   calcular_profundidades_arvore (map fst variaveis_ciclo) dependencias_ciclo [''m.f::base'']
      ''m.f::ping'' = 0 \<and>
   calcular_profundidades_arvore (map fst variaveis_ciclo) dependencias_ciclo [''m.f::base'']
      ''m.f::base'' = 0 \<and>
   (\<exists>r e e'. AnalisadorDou variaveis_ciclo sem_coeficientes dependencias_ciclo [''m.f::base'']
        = Inr r \<and> e \<in> set (detalhado r) \<and> variavel e = ''m.f::ping'' \<and>
        e' \<in> set (detalhado r) \<and> variavel e' = ''m.f::base'' \<and> hc e = 2 \<and> hc e' = 2)"
proof -
  have h1: "enumera_raizes (map fst variaveis_ciclo) dependencias_ciclo [''m.f::base'']"
    by (auto simp: enumera_raizes_def nos_raiz_def eh_raiz_def variaveis_ciclo_def
          dependencias_ciclo_def)
  have h2: "variaveis_ciclo \<noteq> []" by (simp add: variaveis_ciclo_def)
  have h3: "distinct (map fst variaveis_ciclo)" by (simp add: variaveis_ciclo_def)
  have h4: "profundidades_representaveis variaveis_ciclo dependencias_ciclo [''m.f::base'']"
    unfolding profundidades_representaveis_def
    using profundidades_ciclo by (simp add: variaveis_ciclo_def)
  have h5: "(''m.f::ping'', 2) \<in> set variaveis_ciclo" by (simp add: variaveis_ciclo_def)
  have fe: "fechado dependencias_ciclo {''m.f::ping'', ''m.f::pong''}"
    by (simp add: fechado_def dependencias_ciclo_def)
  have h6: "\<not> alcancavel (map fst variaveis_ciclo) dependencias_ciclo ''m.f::ping''"
    using fechado_nao_alcancavel [OF fe] by blast
  have rz: "''m.f::base'' \<in> nos_raiz (map fst variaveis_ciclo) dependencias_ciclo"
    by (simp add: nos_raiz_def eh_raiz_def variaveis_ciclo_def dependencias_ciclo_def)
  from unreachable_depth_zero [OF h1 h2 h3 h5 h6, of sem_coeficientes] h4
  obtain r e where a: "calcular_profundidades_arvore (map fst variaveis_ciclo) dependencias_ciclo
        [''m.f::base''] ''m.f::ping'' = 0"
    and b: "\<forall>raiz\<in>nos_raiz (map fst variaveis_ciclo) dependencias_ciclo.
        calcular_profundidades_arvore (map fst variaveis_ciclo) dependencias_ciclo
          [''m.f::base''] raiz = 0"
    and c: "AnalisadorDou variaveis_ciclo sem_coeficientes dependencias_ciclo [''m.f::base'']
        = Inr r" "e \<in> set (detalhado r)" "variavel e = ''m.f::ping''" "hc e = 2"
    and d: "\<forall>e'\<in>set (detalhado r). variavel e' \<in> nos_raiz (map fst variaveis_ciclo)
        dependencias_ciclo \<longrightarrow> hc e' = hc e"
    by blast
  have "\<exists>e'\<in>set (detalhado r). variavel e' = ''m.f::base''"
    using AnalisadorDou_ok [OF h2 h3 h4, of sem_coeficientes] c(1)
    by (auto simp: Let_def variaveis_ciclo_def linha_dou_def)
  then obtain e' where e': "e' \<in> set (detalhado r)" "variavel e' = ''m.f::base''" by blast
  with d rz have "hc e' = hc e" by simp
  with fe a b rz c e' show ?thesis by auto
qed

text \<open>
  Claim C9 as stated fails for a dependency cycle that a root feeds: in
  \<^verbatim>\<open>ping = base + pong; pong = ping\<close> each of \<^verbatim>\<open>ping\<close> and \<^verbatim>\<open>pong\<close> depends on the other, yet
  they are labelled 3 and 2, not 0.
\<close>

theorem fed_cycle_has_positive_depth:
  "enumera_raizes (map fst variaveis_ciclo_raiz) dependencias_ciclo_raiz [''m.f::base''] \<and>
   dependencias_ciclo_raiz ''m.f::ping'' = Some {''m.f::base'', ''m.f::pong''} \<and>
   dependencias_ciclo_raiz ''m.f::pong'' = Some {''m.f::ping''} \<and>
   calcular_profundidades_arvore (map fst variaveis_ciclo_raiz) dependencias_ciclo_raiz
     [''m.f::base''] ''m.f::ping'' = 3 \<and>
   calcular_profundidades_arvore (map fst variaveis_ciclo_raiz) dependencias_ciclo_raiz
     [''m.f::base''] ''m.f::pong'' = 2"
  by (simp add: calcular_profundidades_arvore_def nos_raiz_def eh_raiz_def
        dependencias_ciclo_raiz_def variaveis_ciclo_raiz_def enumera_raizes_def)


section \<open>Entropy and judgment-matrix model of Zhang et al. (analisador\_zhang.py)\<close>

text \<open>
  \<^verbatim>\<open>AnalisadorZhang(funcoes, matriz_adjacencia, probabilidades)\<close>. The adjacency matrix is
  a list of rows. \<^verbatim>\<open>obter_matriz_adjacencia\<close> fills a matrix of zeros by increments of one,
  so its entries are integers (numpy keeps them as floats); \<^verbatim>\<open>probabilidades\<close> is a
  dictionary from function name to a float, idealised as a real.
\<close>

type_synonym matriz = "int list list"

definition indice :: "'a list \<Rightarrow> nat \<Rightarrow> error + 'a" where
  \<comment> \<open>\<^verbatim>\<open>xs[i]\<close> for \<open>i \<ge> 0\<close>\<close>
  "indice xs i = (if i < length xs then Inr (xs ! i) else Inl IndexError)"

definition quadrada :: "nat \<Rightarrow> matriz \<Rightarrow> bool" where
  "quadrada n m \<longleftrightarrow> length m = n \<and> list_all (\<lambda>linha. length linha = n) m"

definition fill_diagonal_0 :: "matriz \<Rightarrow> matriz" where
  \<comment> \<open>\<^verbatim>\<open>m_temp = m.copy(); np.fill_diagonal(m_temp, 0)\<close>\<close>
  "fill_diagonal_0 m = map (\<lambda>(i, linha). linha[i := 0]) (enumerate 0 m)"

definition np_sum :: "matriz \<Rightarrow> int" where
  "np_sum m = sum_list (map sum_list m)"

definition int_metade :: "int \<Rightarrow> int" where
  \<comment> \<open>\<^verbatim>\<open>int(s / 2)\<close>: float division, then truncation towards zero\<close>
  "int_metade s = (if 0 \<le> s then s div 2 else - ((- s) div 2))"

record contagem =
  M :: int
  M_diretos :: int
  graus :: "int list"

definition contar_acoplas :: "matriz \<Rightarrow> contagem" where
  "contar_acoplas m =
     (let m_temp = fill_diagonal_0 m
      in \<lparr>M = int_metade (np_sum m_temp), M_diretos = np_sum m_temp,
          graus = map sum_list m\<rparr>)"

record detalhe_func =
  funcao :: string
  ni :: real
  pi_func :: real
  termo :: real

record resultado_entropia =
  H_entropy :: real
  H_entropy_detalhado :: "detalhe_func list"
  H_normalized :: real

text \<open>The loop \<^verbatim>\<open>for i, funcao in enumerate(self.funcoes)\<close>, from index \<open>i\<close> on.\<close>

fun laco_entropia ::
  "contagem \<Rightarrow> (string \<rightharpoonup> real) \<Rightarrow> nat \<Rightarrow> string list \<Rightarrow> real \<times> detalhe_func list
   \<Rightarrow> error + real \<times> detalhe_func list" where
  "laco_entropia c probabilidades i [] acc = Inr acc"
| "laco_entropia c probabilidades i (f # fs) (H_total, det) =
     entao (indice (graus c) i) (\<lambda>g.
     entao (busca probabilidades f) (\<lambda>p.
       (let n_i = real_of_int g in
        if n_i > 0 \<and> p > 0 \<and> M c > 0 then
          (let coef = (n_i * p) / (2 * real_of_int (M c));
               t = - coef * log 10 (n_i / (2 * real_of_int (M c)))
           in laco_entropia c probabilidades (Suc i) fs
                (H_total + t, det @ [\<lparr>funcao = f, ni = n_i, pi_func = p, termo = t\<rparr>]))
        else laco_entropia c probabilidades (Suc i) fs
                (H_total, det @ [\<lparr>funcao = f, ni = n_i, pi_func = p, termo = 0\<rparr>]))))"

definition calcular_entropy_model ::
  "string list \<Rightarrow> contagem \<Rightarrow> (string \<rightharpoonup> real) \<Rightarrow> error + resultado_entropia" where
  "calcular_entropy_model funcoes c probabilidades =
     entao (laco_entropia c probabilidades 0 funcoes (0, [])) (\<lambda>(H_total, det).
       (let n = length funcoes in
        Inr \<lparr>H_entropy = H_total, H_entropy_detalhado = det,
             H_normalized =
               (if n > 1 then
                  (let H_max = real n * log 10 (real n)
                   in if H_max > 0 then min 1 (H_total / H_max) else 0)
                else 0)\<rparr>))"

text \<open>
  \<^verbatim>\<open>_calcular_judgment_matrix_model\<close>. The matrix \<open>A\<close> is built before the \<^verbatim>\<open>try\<close>; the
  eigen-decomposition and everything after it run inside the \<^verbatim>\<open>try\<close>, whose handler
  installs the fallback values.
\<close>

fun mapa_erro :: "('a \<Rightarrow> error + 'b) \<Rightarrow> 'a list \<Rightarrow> error + 'b list" where
  "mapa_erro f [] = Inr []"
| "mapa_erro f (x # xs) = entao (f x) (\<lambda>y. entao (mapa_erro f xs) (\<lambda>ys. Inr (y # ys)))"

definition entrada_julgamento :: "matriz \<Rightarrow> nat \<Rightarrow> nat \<Rightarrow> error + real" where
  "entrada_julgamento m i j =
     (if i = j then Inr 1
      else entao (indice m i) (\<lambda>linha.
           entao (indice linha j) (\<lambda>n_ij.
             if n_ij > 0 then
               (let soma_i = sum_list linha
                in if soma_i > 0 then Inr (real_of_int n_ij / real_of_int soma_i) else Inr 1)
             else Inr 1)))"

definition construir_matriz_julgamento :: "nat \<Rightarrow> matriz \<Rightarrow> error + real list list" where
  "construir_matriz_julgamento n m =
     mapa_erro (\<lambda>i. mapa_erro (entrada_julgamento m i) [0..<n]) [0..<n]"

record prioridades =
  lambda_max :: real
  sorting_vector :: "real list"
  C_judgment :: real

text \<open>
  When the components of the dominant eigenvector sum to zero, numpy divides by zero
  without raising and the fields hold \<^verbatim>\<open>inf\<close> or \<^verbatim>\<open>nan\<close>, which the reals do not have:
  that outcome is \<open>NaoFinita\<close>.
\<close>

datatype saida_julgamento = Finita prioridades | NaoFinita

text \<open>
  \<^verbatim>\<open>np.linalg.eig\<close> is the parameter \<open>eig\<close>: it raises or returns the eigenvalues and the
  matrix whose columns are the eigenvectors. The code reads only real parts
  (\<^verbatim>\<open>np.real(np.max(eigenvalues))\<close> is the largest real part), so \<open>eig\<close> returns them.
\<close>

type_synonym eig = "real list list \<Rightarrow> error + real list \<times> real list list"

definition maximo :: "real list \<Rightarrow> error + real" where
  \<comment> \<open>\<^verbatim>\<open>np.max\<close> refuses an empty array\<close>
  "maximo xs = (case xs of [] \<Rightarrow> Inl ValueError | x # ys \<Rightarrow> Inr (fold max ys x))"

fun primeiro_indice :: "real \<Rightarrow> real list \<Rightarrow> nat" where
  \<comment> \<open>\<^verbatim>\<open>np.argmax\<close>: the first position of the maximum\<close>
  "primeiro_indice v [] = 0"
| "primeiro_indice v (x # xs) = (if x = v then 0 else Suc (primeiro_indice v xs))"

definition coluna :: "real list list \<Rightarrow> nat \<Rightarrow> error + real list" where
  \<comment> \<open>\<^verbatim>\<open>eigenvectors[:, idx_max]\<close>\<close>
  "coluna vs idx = mapa_erro (\<lambda>linha. indice linha idx) vs"

fun laco_julgamento ::
  "(string \<rightharpoonup> real) \<Rightarrow> real list \<Rightarrow> real list list \<Rightarrow> nat \<Rightarrow> string list \<Rightarrow> real
   \<Rightarrow> error + real" where
  "laco_julgamento probabilidades W A i [] C_total = Inr C_total"
| "laco_julgamento probabilidades W A i (f # fs) C_total =
     entao (busca probabilidades f) (\<lambda>p.
     entao (indice W i) (\<lambda>w.
     entao (indice A i) (\<lambda>linha.
       laco_julgamento probabilidades W A (Suc i) fs (C_total + p * w * sum_list linha))))"

definition bloco_try ::
  "eig \<Rightarrow> string list \<Rightarrow> (string \<rightharpoonup> real) \<Rightarrow> real list list \<Rightarrow> error + saida_julgamento" where
  "bloco_try eig funcoes probabilidades A =
     entao (eig A) (\<lambda>(eigenvalues, eigenvectors).
     entao (maximo eigenvalues) (\<lambda>lmax.
     entao (coluna eigenvectors (primeiro_indice lmax eigenvalues)) (\<lambda>v_max.
       (let s = sum_list v_max;
            W = map (\<lambda>v. v / s) v_max;
            n = length funcoes
        in entao (laco_julgamento probabilidades W A 0 funcoes 0) (\<lambda>C_total.
             if n = 0 then Inl ZeroDivisionError
             else if s = 0 \<and> v_max \<noteq> [] then Inr NaoFinita
             else Inr (Finita \<lparr>lambda_max = lmax, sorting_vector = W,
                                C_judgment = C_total / real n\<rparr>))))))"

definition calcular_judgment_matrix_model ::
  "eig \<Rightarrow> string list \<Rightarrow> matriz \<Rightarrow> (string \<rightharpoonup> real)
   \<Rightarrow> error + real list list \<times> saida_julgamento" where
  "calcular_judgment_matrix_model eig funcoes m probabilidades =
     (let n = length funcoes in
      entao (construir_matriz_julgamento n m) (\<lambda>A.
        Inr (A, case bloco_try eig funcoes probabilidades A of
                  Inl e \<Rightarrow> Finita \<lparr>lambda_max = 0,
                                     sorting_vector = replicate n (1 / real n),
                                     C_judgment = 0\<rparr>
                | Inr saida \<Rightarrow> saida)))"

text \<open>\<^verbatim>\<open>AnalisadorZhang.__init__\<close>: the three steps in order.\<close>

definition AnalisadorZhang ::
  "eig \<Rightarrow> string list \<Rightarrow> matriz \<Rightarrow> (string \<rightharpoonup> real)
   \<Rightarrow> error + contagem \<times> resultado_entropia \<times> real list list \<times> saida_julgamento" where
  "AnalisadorZhang eig funcoes m probabilidades =
     (let c = contar_acoplas m in
      entao (calcular_entropy_model funcoes c probabilidades) (\<lambda>e.
      entao (calcular_judgment_matrix_model eig funcoes m probabilidades) (\<lambda>j.
        Inr (c, e, j))))"


section \<open>Properties of the entropy and judgment-matrix model\<close>

text \<open>The entropy term as the specification words it, from the row sum, the probability and M.\<close>

definition termo_especificado :: "matriz \<Rightarrow> (string \<rightharpoonup> real) \<Rightarrow> string list \<Rightarrow> nat \<Rightarrow> real" where
  "termo_especificado m probabilidades funcoes i =
     (let n_i = real_of_int (sum_list (m ! i));
          p_i = (case probabilidades (funcoes ! i) of None \<Rightarrow> 0 | Some p \<Rightarrow> p);
          MM = real_of_int (M (contar_acoplas m))
      in if n_i > 0 \<and> p_i > 0 \<and> MM > 0
         then - ((n_i * p_i) / (2 * MM)) * log 10 (n_i / (2 * MM))
         else 0)"

definition entradas_validas :: "string list \<Rightarrow> matriz \<Rightarrow> (string \<rightharpoonup> real) \<Rightarrow> bool" where
  "entradas_validas funcoes m probabilidades \<longleftrightarrow>
     length funcoes \<le> length m \<and> list_all (\<lambda>f. f \<in> dom probabilidades) funcoes"

lemma laco_entropia_ok:
  assumes "i + length fs \<le> length m" and "list_all (\<lambda>f. f \<in> dom probabilidades) fs"
    and "\<And>k. k < length fs \<Longrightarrow> funcoes ! (i + k) = fs ! k"
  shows "laco_entropia (contar_acoplas m) probabilidades i fs (H, det) =
         Inr (H + sum_list (map (termo_especificado m probabilidades funcoes) [i..<i + length fs]),
              det @ map (\<lambda>k. \<lparr>funcao = funcoes ! k, ni = real_of_int (sum_list (m ! k)),
                                pi_func = (case probabilidades (funcoes ! k) of None \<Rightarrow> 0 | Some p \<Rightarrow> p),
                                termo = termo_especificado m probabilidades funcoes k\<rparr>)
                        [i..<i + length fs])"
  using assms
proof (induction fs arbitrary: i H det)
  case Nil
  then show ?case by simp
next
  case (Cons f fs)
  have i_lt: "i < length m" using Cons.prems(1) by simp
  obtain p where p: "probabilidades f = Some p" using Cons.prems(2) by auto
  have f: "funcoes ! i = f" using Cons.prems(3) [of 0] by simp
  have g: "indice (graus (contar_acoplas m)) i = Inr (sum_list (m ! i))"
    using i_lt by (simp add: indice_def contar_acoplas_def Let_def)
  have tl1: "Suc i + length fs \<le> length m" using Cons.prems(1) by simp
  have tl2: "list_all (\<lambda>f. f \<in> dom probabilidades) fs" using Cons.prems(2) by simp
  have tl3: "\<And>k. k < length fs \<Longrightarrow> funcoes ! (Suc i + k) = fs ! k"
    using Cons.prems(3) [of "Suc _"] by simp
  note IH = Cons.IH [OF tl1 tl2 tl3]
  have up: "[i..<i + length (f # fs)] = i # [Suc i..<Suc i + length fs]"
    by (simp add: upt_rec)
  have t: "termo_especificado m probabilidades funcoes i =
        (if real_of_int (sum_list (m ! i)) > 0 \<and> p > 0 \<and> M (contar_acoplas m) > 0
         then - ((real_of_int (sum_list (m ! i)) * p) / (2 * real_of_int (M (contar_acoplas m))))
              * log 10 (real_of_int (sum_list (m ! i)) / (2 * real_of_int (M (contar_acoplas m))))
         else 0)"
    by (simp add: termo_especificado_def Let_def f p)
  show ?case
    unfolding up
    by (simp only: laco_entropia.simps g p busca_def option.case entao_Inr Let_def IH t f
          list.map sum_list.Cons append_Cons append_Nil append_assoc split: if_split)
       (auto simp add: add.assoc)
qed


lemma calcular_entropy_model_ok:
  assumes "entradas_validas funcoes m probabilidades"
  shows "calcular_entropy_model funcoes (contar_acoplas m) probabilidades =
     (let n = length funcoes;
          H = sum_list (map (termo_especificado m probabilidades funcoes) [0..<n])
      in Inr \<lparr>H_entropy = H,
              H_entropy_detalhado =
                map (\<lambda>k. \<lparr>funcao = funcoes ! k, ni = real_of_int (sum_list (m ! k)),
                            pi_func = (case probabilidades (funcoes ! k) of
                                         None \<Rightarrow> 0 | Some p \<Rightarrow> p),
                            termo = termo_especificado m probabilidades funcoes k\<rparr>) [0..<n],
              H_normalized =
                (if n > 1 then
                   (let H_max = real n * log 10 (real n)
                    in if H_max > 0 then min 1 (H / H_max) else 0)
                 else 0)\<rparr>)"
proof -
  have "laco_entropia (contar_acoplas m) probabilidades 0 funcoes (0, []) =
     Inr (0 + sum_list (map (termo_especificado m probabilidades funcoes) [0..<0 + length funcoes]),
          [] @ map (\<lambda>k. \<lparr>funcao = funcoes ! k, ni = real_of_int (sum_list (m ! k)),
                            pi_func = (case probabilidades (funcoes ! k) of
                                         None \<Rightarrow> 0 | Some p \<Rightarrow> p),
                            termo = termo_especificado m probabilidades funcoes k\<rparr>)
                    [0..<0 + length funcoes])"
    using assms by (intro laco_entropia_ok) (simp_all add: entradas_validas_def)
  then show ?thesis
    by (simp add: calcular_entropy_model_def Let_def)
qed



definition funcoes_par :: "string list" where
  "funcoes_par = [''m.a'', ''m.b'']"

definition probabilidades_par :: "string \<rightharpoonup> real" where
  "probabilidades_par = [''m.a'' \<mapsto> 1 / 2, ''m.b'' \<mapsto> 1 / 2]"

definition matriz_mutua :: matriz where
  "matriz_mutua = [[0, 1], [1, 0]]"

lemma entradas_validas_par: "entradas_validas funcoes_par matriz_mutua probabilidades_par"
  by (simp add: entradas_validas_def funcoes_par_def matriz_mutua_def probabilidades_par_def)

lemma M_matriz_mutua: "M (contar_acoplas matriz_mutua) = 1"
  by (simp add: contar_acoplas_def fill_diagonal_0_def np_sum_def int_metade_def
        matriz_mutua_def Let_def)



definition matriz_um_arco :: matriz where
  "matriz_um_arco = [[0, 1], [0, 0]]"

definition funcoes_leque :: "string list" where
  "funcoes_leque = [''m.a'', ''m.b'', ''m.c'', ''m.d'']"

definition probabilidades_leque :: "string \<rightharpoonup> real" where
  "probabilidades_leque = [''m.a'' \<mapsto> 1 / 2, ''m.b'' \<mapsto> 1 / 2, ''m.c'' \<mapsto> 1 / 2, ''m.d'' \<mapsto> 1 / 2]"

definition matriz_leque :: matriz where
  "matriz_leque = [[0, 1, 1, 1], [0, 0, 0, 0], [0, 0, 0, 0], [0, 0, 0, 0]]"

text \<open>
  Claim C6, as the code has it: for any matrix and any probabilities, the entropy term of
  a function is negative exactly when its row sum exceeds \<open>2M\<close>, \<open>M\<close> is positive and its
  probability is positive; in every other case the term is non-negative.
\<close>

theorem entropy_term_negative_iff:
  assumes "entradas_validas funcoes m probabilidades" and "i < length funcoes"
  shows "\<exists>r p. calcular_entropy_model funcoes (contar_acoplas m) probabilidades = Inr r \<and>
           probabilidades (funcoes ! i) = Some p \<and>
           (termo (H_entropy_detalhado r ! i) < 0 \<longleftrightarrow>
              0 < M (contar_acoplas m) \<and> 2 * M (contar_acoplas m) < sum_list (m ! i) \<and> 0 < p) \<and>
           (0 \<le> termo (H_entropy_detalhado r ! i) \<longleftrightarrow>
              M (contar_acoplas m) \<le> 0 \<or> sum_list (m ! i) \<le> 2 * M (contar_acoplas m) \<or> p \<le> 0)"
proof -
  obtain p where p: "probabilidades (funcoes ! i) = Some p"
    using assms by (auto simp: entradas_validas_def list_all_length)
  define n_i where "n_i = real_of_int (sum_list (m ! i))"
  define MM where "MM = real_of_int (M (contar_acoplas m))"
  have eq: "termo_especificado m probabilidades funcoes i =
      (if n_i > 0 \<and> p > 0 \<and> MM > 0
       then - ((n_i * p) / (2 * MM)) * log 10 (n_i / (2 * MM)) else 0)"
    by (simp add: termo_especificado_def Let_def n_i_def MM_def p)
  have MM0: "0 < MM \<longleftrightarrow> 0 < M (contar_acoplas m)" by (simp add: MM_def)
  have nM: "2 * MM < n_i \<longleftrightarrow> 2 * M (contar_acoplas m) < sum_list (m ! i)"
    unfolding n_i_def MM_def by (metis of_int_less_iff of_int_mult of_int_numeral)
  have neg: "termo_especificado m probabilidades funcoes i < 0 \<longleftrightarrow>
             0 < MM \<and> 2 * MM < n_i \<and> 0 < p"
  proof (cases "n_i > 0 \<and> p > 0 \<and> MM > 0")
    case True
    then have c: "0 < (n_i * p) / (2 * MM)" by simp
    have q: "0 < n_i / (2 * MM)" using True by simp
    have "- ((n_i * p) / (2 * MM)) * log 10 (n_i / (2 * MM)) < 0 \<longleftrightarrow>
          0 < ((n_i * p) / (2 * MM)) * log 10 (n_i / (2 * MM))"
      by (simp only: mult_minus_left neg_less_0_iff_less)
    also have "\<dots> \<longleftrightarrow> 0 < log 10 (n_i / (2 * MM))"
      using c by (simp only: zero_less_mult_iff) auto
    also have "\<dots> \<longleftrightarrow> 1 < n_i / (2 * MM)" using q by simp
    also have "\<dots> \<longleftrightarrow> 2 * MM < n_i" using True by (simp add: field_simps)
    finally show ?thesis unfolding eq if_P [OF True] using True by simp
  next
    case False
    have "\<not> (0 < MM \<and> 2 * MM < n_i \<and> 0 < p)" using False by auto
    then show ?thesis unfolding eq if_not_P [OF False] by simp
  qed
  have t: "\<exists>r. calcular_entropy_model funcoes (contar_acoplas m) probabilidades = Inr r \<and>
             termo (H_entropy_detalhado r ! i) = termo_especificado m probabilidades funcoes i"
    using calcular_entropy_model_ok [OF assms(1)] assms(2) by (simp add: Let_def)
  then obtain r where r: "calcular_entropy_model funcoes (contar_acoplas m) probabilidades = Inr r"
    and tr: "termo (H_entropy_detalhado r ! i) = termo_especificado m probabilidades funcoes i"
    by blast
  have a: "termo (H_entropy_detalhado r ! i) < 0 \<longleftrightarrow>
           0 < M (contar_acoplas m) \<and> 2 * M (contar_acoplas m) < sum_list (m ! i) \<and> 0 < p"
    unfolding tr neg MM0 nM ..
  have b: "0 \<le> termo (H_entropy_detalhado r ! i) \<longleftrightarrow>
           M (contar_acoplas m) \<le> 0 \<or> sum_list (m ! i) \<le> 2 * M (contar_acoplas m) \<or> p \<le> 0"
    using a by (auto simp: not_less [symmetric])
  from r p a b show ?thesis by blast
qed

lemma entradas_validas_leque:
  "entradas_validas funcoes_leque matriz_leque probabilidades_leque"
  by (simp add: entradas_validas_def funcoes_leque_def matriz_leque_def probabilidades_leque_def)

lemma M_matriz_leque: "M (contar_acoplas matriz_leque) = 1"
  by (simp add: contar_acoplas_def fill_diagonal_0_def np_sum_def int_metade_def
        matriz_leque_def Let_def)

lemma entradas_validas_um_arco:
  "entradas_validas funcoes_par matriz_um_arco probabilidades_par"
  by (simp add: entradas_validas_def funcoes_par_def matriz_um_arco_def probabilidades_par_def)

lemma M_matriz_um_arco: "M (contar_acoplas matriz_um_arco) = 0"
  by (simp add: contar_acoplas_def fill_diagonal_0_def np_sum_def int_metade_def
        matriz_um_arco_def Let_def)

text \<open>
  Three instances: two functions calling each other (\<open>n = 1 \<le> 2M = 2\<close>, term not negative),
  the caller of a single edge (\<open>n = 1 > 2M = 0\<close>, term not negative) and one caller of three
  callees (\<open>n = 3 > 2M = 2 > 0\<close>, term negative).
\<close>

theorem entropy_term_negative_iff_witness:
  "(\<exists>r. calcular_entropy_model funcoes_par (contar_acoplas matriz_mutua) probabilidades_par = Inr r
       \<and> 0 \<le> termo (H_entropy_detalhado r ! 0)) \<and>
   (\<exists>r. calcular_entropy_model funcoes_par (contar_acoplas matriz_um_arco) probabilidades_par
          = Inr r \<and> 0 \<le> termo (H_entropy_detalhado r ! 0)) \<and>
   (\<exists>r. calcular_entropy_model funcoes_leque (contar_acoplas matriz_leque) probabilidades_leque
          = Inr r \<and> termo (H_entropy_detalhado r ! 0) < 0)"
proof -
  have l2: "0 < length funcoes_par" by (simp add: funcoes_par_def)
  have l4: "0 < length funcoes_leque" by (simp add: funcoes_leque_def)
  have s1: "sum_list (matriz_mutua ! 0) = 1" by (simp add: matriz_mutua_def)
  have s2: "sum_list (matriz_um_arco ! 0) = 1" by (simp add: matriz_um_arco_def)
  have s3: "sum_list (matriz_leque ! 0) = 3" by (simp add: matriz_leque_def)
  have p2: "probabilidades_par (funcoes_par ! 0) = Some (1 / 2)"
    by (simp add: probabilidades_par_def funcoes_par_def)
  have p4: "probabilidades_leque (funcoes_leque ! 0) = Some (1 / 2)"
    by (simp add: probabilidades_leque_def funcoes_leque_def)
  from entropy_term_negative_iff [OF entradas_validas_par l2]
  have a: "\<exists>r. calcular_entropy_model funcoes_par (contar_acoplas matriz_mutua) probabilidades_par
             = Inr r \<and> 0 \<le> termo (H_entropy_detalhado r ! 0)"
    unfolding M_matriz_mutua s1 p2 by auto
  from entropy_term_negative_iff [OF entradas_validas_um_arco l2]
  have b: "\<exists>r. calcular_entropy_model funcoes_par (contar_acoplas matriz_um_arco)
             probabilidades_par = Inr r \<and> 0 \<le> termo (H_entropy_detalhado r ! 0)"
    unfolding M_matriz_um_arco s2 p2 by auto
  from entropy_term_negative_iff [OF entradas_validas_leque l4]
  have c: "\<exists>r. calcular_entropy_model funcoes_leque (contar_acoplas matriz_leque)
             probabilidades_leque = Inr r \<and> termo (H_entropy_detalhado r ! 0) < 0"
    unfolding M_matriz_leque s3 p4 by auto
  from a b c show ?thesis by (intro conjI)
qed

text \<open>
  Claim C6 as stated fails: \<open>M\<close> is the truncated half of the number of directed
  edges, so a function that makes all of an odd number of calls has \<open>n_i > 2M\<close>. With
  one caller of three callees and probability 0.5, \<open>n = 3\<close>, \<open>M = 1\<close> and the term is
  \<open>-(3/4) * log10 (3/2) < 0\<close>.
\<close>

theorem negative_entropy_term:
  "\<not> isl (calcular_entropy_model funcoes_leque (contar_acoplas matriz_leque) probabilidades_leque)
   \<and> termo (H_entropy_detalhado (projr
        (calcular_entropy_model funcoes_leque (contar_acoplas matriz_leque) probabilidades_leque))
        ! 0) < 0"
  by (simp add: calcular_entropy_model_def contar_acoplas_def fill_diagonal_0_def np_sum_def
        int_metade_def indice_def busca_def Let_def funcoes_leque_def matriz_leque_def
        probabilidades_leque_def)


text \<open>
  The judgment matrix as the specification words it: 1 on the diagonal; off the diagonal
  the edge weight over the row sum of the adjacency matrix where the weight is positive,
  and 1 elsewhere.
\<close>

definition matriz_A :: "nat \<Rightarrow> matriz \<Rightarrow> real list list" where
  "matriz_A n m =
     map (\<lambda>i. map (\<lambda>j. if i = j then 1
                         else if m ! i ! j > 0 \<and> sum_list (m ! i) > 0
                              then real_of_int (m ! i ! j) / real_of_int (sum_list (m ! i))
                              else 1) [0..<n]) [0..<n]"

lemma mapa_erro_ok:
  "(\<And>x. x \<in> set xs \<Longrightarrow> f x = Inr (g x)) \<Longrightarrow> mapa_erro f xs = Inr (map g xs)"
  by (induction xs) simp_all

lemma construir_matriz_julgamento_ok:
  assumes "quadrada n m"
  shows "construir_matriz_julgamento n m = Inr (matriz_A n m)"
proof -
  have len: "length m = n" and linhas: "\<And>i. i < n \<Longrightarrow> length (m ! i) = n"
    using assms by (auto simp: quadrada_def list_all_length)
  have "entrada_julgamento m i j =
        Inr (if i = j then 1
             else if m ! i ! j > 0 \<and> sum_list (m ! i) > 0
                  then real_of_int (m ! i ! j) / real_of_int (sum_list (m ! i))
                  else 1)"
    if "i < n" "j < n" for i j
    using that len linhas [of i] by (simp add: entrada_julgamento_def indice_def Let_def)
  then have linha: "mapa_erro (entrada_julgamento m i) [0..<n] =
        Inr (map (\<lambda>j. if i = j then 1
                        else if m ! i ! j > 0 \<and> sum_list (m ! i) > 0
                             then real_of_int (m ! i ! j) / real_of_int (sum_list (m ! i))
                             else 1) [0..<n])"
    if "i < n" for i
    using that by (intro mapa_erro_ok) simp
  show ?thesis
    unfolding construir_matriz_julgamento_def matriz_A_def
    by (rule mapa_erro_ok) (simp add: linha)
qed

lemma length_matriz_A [simp]: "length (matriz_A n m) = n"
  by (simp add: matriz_A_def)

lemma julgamento_retorna:
  assumes "quadrada (length funcoes) m"
  shows "calcular_judgment_matrix_model eig funcoes m probabilidades =
           Inr (matriz_A (length funcoes) m,
                case bloco_try eig funcoes probabilidades (matriz_A (length funcoes) m) of
                  Inl e \<Rightarrow> Finita \<lparr>lambda_max = 0,
                                     sorting_vector = replicate (length funcoes)
                                                        (1 / real (length funcoes)),
                                     C_judgment = 0\<rparr>
                | Inr saida \<Rightarrow> saida)"
  using construir_matriz_julgamento_ok [OF assms]
  by (simp add: calcular_judgment_matrix_model_def Let_def)

lemma laco_julgamento_total:
  assumes "list_all (\<lambda>f. f \<in> dom probabilidades) fs"
    and "i + length fs \<le> length W" and "i + length fs \<le> length A"
  shows "\<exists>C_total. laco_julgamento probabilidades W A i fs C0 = Inr C_total"
  using assms
proof (induction fs arbitrary: i C0)
  case Nil
  then show ?case by simp
next
  case (Cons f fs)
  obtain p where p: "probabilidades f = Some p" using Cons.prems(1) by auto
  have iW: "i < length W" and iA: "i < length A" using Cons.prems(2,3) by simp_all
  have "\<exists>C_total. laco_julgamento probabilidades W A (Suc i) fs
                     (C0 + p * W ! i * sum_list (A ! i)) = Inr C_total"
    using Cons.prems by (intro Cons.IH) simp_all
  then show ?case by (simp add: busca_def indice_def p iW iA)
qed


definition eig_falha :: eig where
  "eig_falha A = Inl LinAlgError"






text \<open>
  Empty inputs: a matrix without edges has only zero entries.
\<close>

definition sem_arcos :: "matriz \<Rightarrow> bool" where
  "sem_arcos m \<longleftrightarrow> list_all (list_all (\<lambda>w. w = 0)) m"

definition prob_de :: "(string \<rightharpoonup> real) \<Rightarrow> string \<Rightarrow> real" where
  "prob_de probabilidades f = (case probabilidades f of None \<Rightarrow> 0 | Some p \<Rightarrow> p)"

lemma sum_list_zeros: "list_all (\<lambda>w. w = (0::int)) xs \<Longrightarrow> sum_list xs = 0"
  by (induction xs) simp_all

lemma list_all_update_zero:
  "list_all (\<lambda>w. w = (0::int)) xs \<Longrightarrow> list_all (\<lambda>w. w = 0) (xs[i := 0])"
  by (auto simp: list_all_iff dest: set_update_subset_insert [THEN subsetD])

lemma np_sum_zero:
  "list_all (\<lambda>linha. sum_list linha = 0) m \<Longrightarrow> np_sum m = 0"
  unfolding np_sum_def by (induction m) simp_all

lemma fill_diagonal_zeros:
  "list_all (list_all (\<lambda>w. w = 0)) (m :: matriz) \<Longrightarrow>
   list_all (\<lambda>linha. sum_list linha = 0) (map (\<lambda>(i, linha). linha[i := 0]) (enumerate k m))"
proof (induction m arbitrary: k)
  case Nil
  then show ?case by simp
next
  case (Cons linha m)
  have l: "list_all (\<lambda>w. w = 0) linha" using Cons.prems by simp
  have "sum_list (linha[k := 0]) = 0"
    by (intro sum_list_zeros list_all_update_zero l)
  then show ?case using Cons by simp
qed

lemma sem_arcos_M:
  assumes "sem_arcos m"
  shows "M (contar_acoplas m) = 0" and "M_diretos (contar_acoplas m) = 0"
proof -
  have "list_all (\<lambda>linha. sum_list linha = 0) (fill_diagonal_0 m)"
    using assms unfolding sem_arcos_def fill_diagonal_0_def by (rule fill_diagonal_zeros)
  then have "np_sum (fill_diagonal_0 m) = 0" by (rule np_sum_zero)
  then show "M (contar_acoplas m) = 0" and "M_diretos (contar_acoplas m) = 0"
    by (simp_all add: contar_acoplas_def Let_def int_metade_def)
qed

lemma sum_list_map_zero: "(\<And>x. f x = (0::real)) \<Longrightarrow> sum_list (map f xs) = 0"
  by (induction xs) simp_all

lemma sem_arcos_entropia:
  assumes "entradas_validas funcoes m probabilidades" and "sem_arcos m"
  shows "\<exists>r. calcular_entropy_model funcoes (contar_acoplas m) probabilidades = Inr r \<and>
           H_entropy r = 0 \<and> H_normalized r = 0 \<and>
           list_all (\<lambda>d. termo d = 0) (H_entropy_detalhado r)"
proof -
  have t0: "termo_especificado m probabilidades funcoes i = 0" for i
    by (simp add: termo_especificado_def Let_def sem_arcos_M(1) [OF assms(2)])
  have s0: "sum_list (map (termo_especificado m probabilidades funcoes) [0..<length funcoes]) = 0"
    by (rule sum_list_map_zero) (rule t0)
  show ?thesis
    using calcular_entropy_model_ok [OF assms(1)]
    by (simp add: Let_def s0 t0 list_all_iff)
qed


lemma sem_arcos_matriz_A:
  assumes "quadrada n m" and "sem_arcos m"
  shows "matriz_A n m = replicate n (replicate n 1)"
proof -
  have z: "m ! i ! j = 0" if "i < n" "j < n" for i j
    using assms that by (auto simp: quadrada_def sem_arcos_def list_all_length)
  show ?thesis
    unfolding matriz_A_def by (simp add: list_eq_iff_nth_eq z)
qed

lemma laco_julgamento_linhas_iguais:
  assumes "laco_julgamento probabilidades W A i fs C0 = Inr C"
    and "\<And>k. k < length A \<Longrightarrow> sum_list (A ! k) = s"
  shows "C = C0 + s * (\<Sum>k<length fs. prob_de probabilidades (fs ! k) * W ! (i + k))"
  using assms(1)
proof (induction fs arbitrary: i C0)
  case Nil
  then show ?case by simp
next
  case (Cons f fs)
  from Cons.prems obtain p where p: "probabilidades f = Some p"
    and iW: "i < length W" and iA: "i < length A"
    and rec: "laco_julgamento probabilidades W A (Suc i) fs (C0 + p * W ! i * sum_list (A ! i))
              = Inr C"
    by (auto simp: busca_def indice_def entao_def split: option.splits if_splits sum.splits)
  have "C = (C0 + p * W ! i * s) + s * (\<Sum>k<length fs. prob_de probabilidades (fs ! k) * W ! (Suc i + k))"
    using Cons.IH [OF rec] assms(2) [OF iA] by simp
  also have "\<dots> = C0 + s * (\<Sum>k<length (f # fs). prob_de probabilidades ((f # fs) ! k) * W ! (i + k))"
    by (simp add: sum.lessThan_Suc_shift prob_de_def p algebra_simps del: sum.lessThan_Suc)
  finally show ?case .
qed

text \<open>
  What the model relies on from \<^verbatim>\<open>np.linalg.eig\<close>: the solver returns, and the pair it
  ranks first is an eigenpair of the matrix, a non-zero vector of the right length with a
  positive eigenvalue (the largest eigenvalue of a matrix of positive entries is positive).
\<close>

definition mat_vec :: "real list list \<Rightarrow> real list \<Rightarrow> real list" where
  "mat_vec A v = map (\<lambda>linha. sum_list (map2 (*) linha v)) A"

definition par_dominante :: "eig \<Rightarrow> real list list \<Rightarrow> bool" where
  "par_dominante eig A \<longleftrightarrow>
     (case eig A of
        Inl e \<Rightarrow> False
      | Inr (vals, vecs) \<Rightarrow>
          (case maximo vals of
             Inl e \<Rightarrow> False
           | Inr lmax \<Rightarrow>
               (case coluna vecs (primeiro_indice lmax vals) of
                  Inl e \<Rightarrow> False
                | Inr v \<Rightarrow> 0 < lmax \<and> length v = length A \<and> list_ex (\<lambda>x. x \<noteq> 0) v \<and>
                           mat_vec A v = map (\<lambda>x. lmax * x) v)))"

lemma julgamento_sem_funcoes:
  "calcular_judgment_matrix_model eig [] [] probabilidades =
     Inr ([], Finita \<lparr>lambda_max = 0, sorting_vector = [], C_judgment = 0\<rparr>)"
proof -
  have "\<exists>e. bloco_try eig [] probabilidades [] = Inl e"
    by (auto simp: bloco_try_def entao_def Let_def split: sum.splits prod.splits)
  then show ?thesis
    by (auto simp: calcular_judgment_matrix_model_def construir_matriz_julgamento_def)
qed

lemma julgamento_sem_arcos_falha:
  assumes "quadrada (length funcoes) m" and "sem_arcos m"
    and "eig (replicate (length funcoes) (replicate (length funcoes) 1)) = Inl e"
  shows "calcular_judgment_matrix_model eig funcoes m probabilidades =
           Inr (replicate (length funcoes) (replicate (length funcoes) 1),
                Finita \<lparr>lambda_max = 0,
                        sorting_vector = replicate (length funcoes) (1 / real (length funcoes)),
                        C_judgment = 0\<rparr>)"
proof -
  have "\<exists>e'. bloco_try eig funcoes probabilidades
                (replicate (length funcoes) (replicate (length funcoes) 1)) = Inl e'"
    using assms(3) by (simp add: bloco_try_def)
  then show ?thesis
    unfolding julgamento_retorna [OF assms(1)] sem_arcos_matriz_A [OF assms(1,2)] by auto
qed

lemma mat_vec_uns:
  "length v = n \<Longrightarrow> mat_vec (replicate n (replicate n 1)) v = replicate n (sum_list v)"
proof -
  assume len: "length v = n"
  have "map2 (*) (replicate n (1::real)) v = v"
    using len by (simp add: list_eq_iff_nth_eq)
  then show ?thesis by (simp add: mat_vec_def)
qed

lemma julgamento_sem_arcos_dominante:
  assumes "quadrada (length funcoes) m" and "sem_arcos m" and "funcoes \<noteq> []"
    and "list_all (\<lambda>f. f \<in> dom probabilidades) funcoes"
    and "par_dominante eig (replicate (length funcoes) (replicate (length funcoes) 1))"
  shows "calcular_judgment_matrix_model eig funcoes m probabilidades =
           Inr (replicate (length funcoes) (replicate (length funcoes) 1),
                Finita \<lparr>lambda_max = real (length funcoes),
                        sorting_vector = replicate (length funcoes) (1 / real (length funcoes)),
                        C_judgment = (\<Sum>i<length funcoes. prob_de probabilidades (funcoes ! i))
                                     / real (length funcoes)\<rparr>)"
proof -
  define n where "n = length funcoes"
  define A where "A = replicate n (replicate n (1::real))"
  have n0: "0 < n" using assms(3) by (simp add: n_def)
  have pd: "par_dominante eig A" using assms(5) by (simp add: A_def n_def)
  obtain vals vecs where e: "eig A = Inr (vals, vecs)"
    using pd by (cases "eig A") (auto simp: par_dominante_def)
  obtain lmax where mx: "maximo vals = Inr lmax"
    using pd by (cases "maximo vals") (auto simp: par_dominante_def e)
  obtain v where col: "coluna vecs (primeiro_indice lmax vals) = Inr v"
    using pd by (cases "coluna vecs (primeiro_indice lmax vals)")
                (auto simp: par_dominante_def e mx)
  have pos: "0 < lmax" and len: "length v = n" and nz: "list_ex (\<lambda>x. x \<noteq> 0) v"
    and ev: "mat_vec A v = map (\<lambda>x. lmax * x) v"
    using pd unfolding par_dominante_def e by (simp_all add: mx col A_def)
  define s where "s = sum_list v"
  have comp: "v ! k = s / lmax" if "k < n" for k
  proof -
    have "mat_vec A v ! k = s" using that len by (simp add: A_def mat_vec_uns s_def)
    moreover have "map (\<lambda>x. lmax * x) v ! k = lmax * v ! k" using that len by simp
    ultimately have "s = lmax * v ! k" using ev by simp
    then show ?thesis using pos by (simp add: field_simps)
  qed
  have v: "v = replicate n (s / lmax)"
    using len comp by (simp add: list_eq_iff_nth_eq)
  have c0: "s / lmax \<noteq> 0" using nz unfolding list_ex_iff by (subst (asm) v) auto
  then have s0: "s \<noteq> 0" by auto
  have "sum_list v = real n * (s / lmax)" by (subst v) (simp add: sum_list_replicate)
  then have "s = real n * (s / lmax)" by (simp add: s_def)
  then have lm: "lmax = real n" using s0 pos by (simp add: field_simps)
  have W: "map (\<lambda>x. x / s) v = replicate n (1 / real n)"
    by (subst v) (use s0 pos lm in \<open>simp add: field_simps\<close>)
  have linhas: "\<And>k. k < length A \<Longrightarrow> sum_list (A ! k) = real n"
    by (simp add: A_def sum_list_replicate)
  have "\<exists>C_total. laco_julgamento probabilidades (replicate n (1 / real n)) A 0 funcoes 0
                    = Inr C_total"
    using assms(4) by (intro laco_julgamento_total) (simp_all add: A_def n_def)
  then obtain C_total where
    laco: "laco_julgamento probabilidades (replicate n (1 / real n)) A 0 funcoes 0 = Inr C_total"
    by blast
  have "C_total = real n * (\<Sum>k<n. prob_de probabilidades (funcoes ! k)
                                     * replicate n (1 / real n) ! k)"
    using laco_julgamento_linhas_iguais [OF laco linhas] by (simp add: n_def)
  also have "(\<Sum>k<n. prob_de probabilidades (funcoes ! k) * replicate n (1 / real n) ! k)
             = (\<Sum>k<n. prob_de probabilidades (funcoes ! k) * (1 / real n))"
    by (intro sum.cong) auto
  also have "\<dots> = (\<Sum>k<n. prob_de probabilidades (funcoes ! k)) / real n"
    by (simp add: sum_divide_distrib)
  finally have C: "C_total = (\<Sum>k<n. prob_de probabilidades (funcoes ! k))"
    using n0 by simp
  have vne: "v \<noteq> []" using len n0 by auto
  have "bloco_try eig funcoes probabilidades A =
          Inr (Finita \<lparr>lambda_max = real n, sorting_vector = replicate n (1 / real n),
                       C_judgment = (\<Sum>k<n. prob_de probabilidades (funcoes ! k)) / real n\<rparr>)"
    using n0 s0
    by (simp add: bloco_try_def e mx [unfolded lm] col [unfolded lm] Let_def s_def [symmetric]
          W laco C n_def [symmetric])
  moreover have "matriz_A n m = A"
    using sem_arcos_matriz_A [OF assms(1,2)] by (simp add: A_def n_def)
  ultimately show ?thesis
    unfolding julgamento_retorna [OF assms(1)] n_def [symmetric] A_def [symmetric]
    by simp
qed


lemma sem_dependencias_vrm:
  assumes "vd \<noteq> []" and "distinct (map fst vd)" and "list_all (eh_raiz deps) (map fst vd)"
    and "enumera_raizes (map fst vd) deps fila0"
  shows "\<exists>r. AnalisadorDou vd mcs deps fila0 = Inr r \<and>
           list_all (\<lambda>d. hc d = 2) (detalhado r) \<and> HC_medio r = 2 \<and>
           C_vrm r = sum_list (map (\<lambda>p. (case mcs (fst p) of None \<Rightarrow> 1 | Some c \<Rightarrow> c)
                                       + (real_of_int (snd p) + desvio_padrao (map snd vd)) + 2) vd)"
proof -
  define profs where "profs = calcular_profundidades_arvore (map fst vd) deps fila0"
  have sub: "set fila0 \<subseteq> nos_raiz (map fst vd) deps"
    using assms(4) by (simp add: enumera_raizes_def)
  have p0: "profs (fst p) = 0" if "p \<in> set vd" for p
    using profundidades_inv [OF sub, folded profs_def] assms(3) that
    by (auto simp: list_all_iff)
  have rep: "profundidades_representaveis vd deps fila0"
    unfolding profundidades_representaveis_def profs_def [symmetric]
    using p0 by (auto simp: list_all_iff)
  define L where "L = linha_dou mcs (desvio_padrao (map snd vd)) profs"
  have hc2: "hc (L p) = 2" if "p \<in> set vd" for p
    by (simp add: L_def linha_dou_def Let_def p0 [OF that] valor_HC_0)
  have ac: "acoplamento (L p) = (case mcs (fst p) of None \<Rightarrow> 1 | Some c \<Rightarrow> c)
               + (real_of_int (snd p) + desvio_padrao (map snd vd)) + 2" if "p \<in> set vd" for p
    by (simp add: L_def linha_dou_def Let_def p0 [OF that] valor_HC_0)
  have "map (hc \<circ> L) vd = map (\<lambda>_. 2) vd" using hc2 by simp
  then have "sum_list (map (hc \<circ> L) vd) = 2 * real (length vd)"
    by (simp add: sum_list_replicate map_replicate_const)
  then have hm: "sum_list (map (hc \<circ> L) vd) / real (length vd) = 2"
    using assms(1) by simp
  have cv: "sum_list (map (acoplamento \<circ> L) vd) =
        sum_list (map (\<lambda>p. (case mcs (fst p) of None \<Rightarrow> 1 | Some c \<Rightarrow> c)
                                       + (real_of_int (snd p) + desvio_padrao (map snd vd)) + 2) vd)"
    by (rule arg_cong [where f = sum_list]) (simp add: ac)
  show ?thesis
    using AnalisadorDou_ok [OF assms(1,2) rep, of mcs] hc2 hm cv
    by (simp add: Let_def L_def [symmetric] profs_def [symmetric] list_all_iff comp_def)
qed

text \<open>
  Claim C4, as the code has it. Without call edges (and so also without functions) the
  entropy model returns \<open>M = 0\<close>, every term 0, \<open>H = 0\<close> and \<open>H_normalized = 0\<close>. Every entry
  of the judgment matrix is then 1 and the judgment model returns normally, whatever the
  eigen-solver does: without functions, the empty vector and coupling 0; when the solver
  raises, the uniform vector and coupling 0; when the solver returns its dominant
  eigenpair, \<open>lambda_max = n\<close>, again the uniform vector \<open>1/n\<close>, and the coupling
  \<open>(\<Sum> p_i) / n\<close>, which is not 0. With at least one variable and no dependency edge the VRM model returns normally, every
  hierarchical coefficient and their mean are 2, and the total coupling is the sum of
  \<open>MC_i + (X_i + \<sigma>) + 2\<close>, which is not a neutral 0 either.
\<close>

theorem neutral_values_without_edges:
  assumes "quadrada (length funcoes) m" and "sem_arcos m"
    and "list_all (\<lambda>f. f \<in> dom probabilidades) funcoes"
    and "vd \<noteq> []" and "distinct (map fst vd)" and "list_all (eh_raiz deps) (map fst vd)"
    and "enumera_raizes (map fst vd) deps fila0"
  shows "(\<exists>r. calcular_entropy_model funcoes (contar_acoplas m) probabilidades = Inr r \<and>
             M (contar_acoplas m) = 0 \<and> H_entropy r = 0 \<and> H_normalized r = 0 \<and>
             list_all (\<lambda>d. termo d = 0) (H_entropy_detalhado r)) \<and>
         (\<exists>s. calcular_judgment_matrix_model eig funcoes m probabilidades =
                 Inr (replicate (length funcoes) (replicate (length funcoes) 1), s)) \<and>
         (funcoes = [] \<longrightarrow>
            calcular_judgment_matrix_model eig funcoes m probabilidades =
              Inr ([], Finita \<lparr>lambda_max = 0, sorting_vector = [], C_judgment = 0\<rparr>)) \<and>
         ((\<exists>e. eig (replicate (length funcoes) (replicate (length funcoes) 1)) = Inl e) \<longrightarrow>
            calcular_judgment_matrix_model eig funcoes m probabilidades =
              Inr (replicate (length funcoes) (replicate (length funcoes) 1),
                   Finita \<lparr>lambda_max = 0,
                           sorting_vector = replicate (length funcoes)
                                              (1 / real (length funcoes)),
                           C_judgment = 0\<rparr>)) \<and>
         (funcoes \<noteq> [] \<and>
          par_dominante eig (replicate (length funcoes) (replicate (length funcoes) 1)) \<longrightarrow>
            calcular_judgment_matrix_model eig funcoes m probabilidades =
              Inr (replicate (length funcoes) (replicate (length funcoes) 1),
                   Finita \<lparr>lambda_max = real (length funcoes),
                           sorting_vector = replicate (length funcoes)
                                              (1 / real (length funcoes)),
                           C_judgment =
                             (\<Sum>i<length funcoes. prob_de probabilidades (funcoes ! i))
                             / real (length funcoes)\<rparr>)) \<and>
         (\<exists>r. AnalisadorDou vd mcs deps fila0 = Inr r \<and>
             list_all (\<lambda>d. hc d = 2) (detalhado r) \<and> HC_medio r = 2 \<and>
             C_vrm r = sum_list (map (\<lambda>p. (case mcs (fst p) of None \<Rightarrow> 1 | Some c \<Rightarrow> c)
                                       + (real_of_int (snd p) + desvio_padrao (map snd vd)) + 2) vd))"
proof -
  have v: "entradas_validas funcoes m probabilidades"
    using assms(1,3) by (simp add: entradas_validas_def quadrada_def)
  from sem_arcos_entropia [OF v assms(2)] sem_arcos_M(1) [OF assms(2)]
  have e: "\<exists>r. calcular_entropy_model funcoes (contar_acoplas m) probabilidades = Inr r \<and>
             M (contar_acoplas m) = 0 \<and> H_entropy r = 0 \<and> H_normalized r = 0 \<and>
             list_all (\<lambda>d. termo d = 0) (H_entropy_detalhado r)"
    by blast
  have retorna: "\<exists>s. calcular_judgment_matrix_model eig funcoes m probabilidades =
                 Inr (replicate (length funcoes) (replicate (length funcoes) 1), s)"
    unfolding julgamento_retorna [OF assms(1)] sem_arcos_matriz_A [OF assms(1,2)] by simp
  have vazio: "funcoes = [] \<longrightarrow>
            calcular_judgment_matrix_model eig funcoes m probabilidades =
              Inr ([], Finita \<lparr>lambda_max = 0, sorting_vector = [], C_judgment = 0\<rparr>)"
    using assms(1) by (auto simp: quadrada_def julgamento_sem_funcoes)
  have falha: "(\<exists>e. eig (replicate (length funcoes) (replicate (length funcoes) 1)) = Inl e) \<longrightarrow>
            calcular_judgment_matrix_model eig funcoes m probabilidades =
              Inr (replicate (length funcoes) (replicate (length funcoes) 1),
                   Finita \<lparr>lambda_max = 0,
                           sorting_vector = replicate (length funcoes)
                                              (1 / real (length funcoes)),
                           C_judgment = 0\<rparr>)"
    using julgamento_sem_arcos_falha [OF assms(1,2)] by blast
  have dominante: "funcoes \<noteq> [] \<and>
          par_dominante eig (replicate (length funcoes) (replicate (length funcoes) 1)) \<longrightarrow>
            calcular_judgment_matrix_model eig funcoes m probabilidades =
              Inr (replicate (length funcoes) (replicate (length funcoes) 1),
                   Finita \<lparr>lambda_max = real (length funcoes),
                           sorting_vector = replicate (length funcoes)
                                              (1 / real (length funcoes)),
                           C_judgment =
                             (\<Sum>i<length funcoes. prob_de probabilidades (funcoes ! i))
                             / real (length funcoes)\<rparr>)"
    using julgamento_sem_arcos_dominante [OF assms(1,2) _ assms(3)] by blast
  from e retorna vazio falha dominante sem_dependencias_vrm [OF assms(4-7), of mcs]
  show ?thesis by (intro conjI)
qed

lemma AnalisadorZhang_sem_arcos:
  assumes "quadrada (length funcoes) m" and "sem_arcos m"
    and "list_all (\<lambda>f. f \<in> dom probabilidades) funcoes"
  shows "\<exists>e A s. AnalisadorZhang eig funcoes m probabilidades = Inr (contar_acoplas m, e, A, s)
           \<and> H_entropy e = 0"
proof -
  have v: "entradas_validas funcoes m probabilidades"
    using assms(1,3) by (simp add: entradas_validas_def quadrada_def)
  from sem_arcos_entropia [OF v assms(2)] obtain e where
    e: "calcular_entropy_model funcoes (contar_acoplas m) probabilidades = Inr e" "H_entropy e = 0"
    by blast
  with julgamento_retorna [OF assms(1), of eig probabilidades]
  show ?thesis by (simp add: AnalisadorZhang_def Let_def)
qed

definition variaveis_soltas :: variaveis_dict where
  "variaveis_soltas = [(''m.f::total'', 3), (''m.f::parcela'', 1)]"

definition matriz_nula :: matriz where
  "matriz_nula = [[0, 0], [0, 0]]"

text \<open>
  The eigen-decomposition of the matrix of ones of order 2: the eigenvalue 2 with the
  eigenvector \<open>[1, 1]\<close> and the eigenvalue 0 with \<open>[-1, 1]\<close> (numpy scales both to norm 1,
  which the division by the sum cancels).
\<close>

definition eig_uns :: eig where
  "eig_uns A = Inr ([2, 0], [[1, - 1], [1, 1]])"

text \<open>
  Claim C4 as stated fails for both couplings. Two variables used 3 times and once, with
  no dependency edge, get total VRM coupling 12 and mean coefficients 2 and 3, not 0;
  two functions without any call edge, each with the default probability 0.5, get the
  judgment coupling 1/2, not 0.
\<close>

theorem coupling_without_edges_not_zero:
  "AnalisadorDou variaveis_soltas sem_coeficientes sem_dependencias
      [''m.f::total'', ''m.f::parcela''] =
     Inr \<lparr>C_vrm = 12, C_medio = 6, HC_medio = 2, SC_medio = 3,
          detalhado = [\<lparr>variavel = ''m.f::total'', xi = 3, mc = 1, sc = 4, hc = 2,
                         acoplamento = 7\<rparr>,
                       \<lparr>variavel = ''m.f::parcela'', xi = 1, mc = 1, sc = 2, hc = 2,
                         acoplamento = 5\<rparr>]\<rparr> \<and>
   calcular_judgment_matrix_model eig_uns funcoes_par matriz_nula probabilidades_par =
     Inr ([[1, 1], [1, 1]],
          Finita \<lparr>lambda_max = 2, sorting_vector = [1 / 2, 1 / 2], C_judgment = 1 / 2\<rparr>)"
proof -
  have dou: "AnalisadorDou variaveis_soltas sem_coeficientes sem_dependencias
      [''m.f::total'', ''m.f::parcela''] =
     Inr \<lparr>C_vrm = 12, C_medio = 6, HC_medio = 2, SC_medio = 3,
          detalhado = [\<lparr>variavel = ''m.f::total'', xi = 3, mc = 1, sc = 4, hc = 2,
                         acoplamento = 7\<rparr>,
                       \<lparr>variavel = ''m.f::parcela'', xi = 1, mc = 1, sc = 2, hc = 2,
                         acoplamento = 5\<rparr>]\<rparr>"
    by (simp add: AnalisadorDou_def calcular_coeficientes_def calcular_acoplamento_vrm_def
        desvio_padrao_def media_def calcular_profundidades_arvore_def nos_raiz_def eh_raiz_def
        busca_def HC_de_profundidade_def Let_def sem_dependencias_def sem_coeficientes_def
        variaveis_soltas_def)
  have zhang: "calcular_judgment_matrix_model eig_uns funcoes_par matriz_nula probabilidades_par =
     Inr ([[1, 1], [1, 1]],
          Finita \<lparr>lambda_max = 2, sorting_vector = [1 / 2, 1 / 2], C_judgment = 1 / 2\<rparr>)"
    by (simp add: calcular_judgment_matrix_model_def construir_matriz_julgamento_def
        entrada_julgamento_def bloco_try_def eig_uns_def maximo_def coluna_def indice_def
        busca_def Let_def funcoes_par_def matriz_nula_def probabilidades_par_def upt_rec
        numeral_2_eq_2)
  from dou zhang show ?thesis by (rule conjI)
qed


theorem neutral_values_without_edges_witness:
  "(\<exists>r. calcular_entropy_model funcoes_par (contar_acoplas matriz_nula) probabilidades_par = Inr r
        \<and> M (contar_acoplas matriz_nula) = 0 \<and> H_entropy r = 0 \<and> H_normalized r = 0) \<and>
   calcular_judgment_matrix_model eig_falha [] [] probabilidades_par =
     Inr ([], Finita \<lparr>lambda_max = 0, sorting_vector = [], C_judgment = 0\<rparr>) \<and>
   calcular_judgment_matrix_model eig_falha funcoes_par matriz_nula probabilidades_par =
     Inr ([[1, 1], [1, 1]],
          Finita \<lparr>lambda_max = 0, sorting_vector = [1 / 2, 1 / 2], C_judgment = 0\<rparr>) \<and>
   calcular_judgment_matrix_model eig_uns funcoes_par matriz_nula probabilidades_par =
     Inr ([[1, 1], [1, 1]],
          Finita \<lparr>lambda_max = 2, sorting_vector = [1 / 2, 1 / 2], C_judgment = 1 / 2\<rparr>) \<and>
   (\<exists>r. AnalisadorDou variaveis_soltas sem_coeficientes sem_dependencias
           [''m.f::total'', ''m.f::parcela''] = Inr r \<and> HC_medio r = 2 \<and> C_vrm r = 12)"
proof -
  have q2: "quadrada (length funcoes_par) matriz_nula"
    by (simp add: quadrada_def funcoes_par_def matriz_nula_def)
  have z2: "sem_arcos matriz_nula" by (simp add: sem_arcos_def matriz_nula_def)
  have d2: "list_all (\<lambda>f. f \<in> dom probabilidades_par) funcoes_par"
    by (simp add: funcoes_par_def probabilidades_par_def)
  have q0: "quadrada (length ([] :: string list)) []" by (simp add: quadrada_def)
  have z0: "sem_arcos []" by (simp add: sem_arcos_def)
  have d0: "list_all (\<lambda>f. f \<in> dom probabilidades_par) []" by simp
  have v1: "variaveis_soltas \<noteq> []" by (simp add: variaveis_soltas_def)
  have v2: "distinct (map fst variaveis_soltas)" by (simp add: variaveis_soltas_def)
  have v3: "list_all (eh_raiz sem_dependencias) (map fst variaveis_soltas)"
    by (simp add: variaveis_soltas_def eh_raiz_def sem_dependencias_def)
  have v4: "enumera_raizes (map fst variaveis_soltas) sem_dependencias
              [''m.f::total'', ''m.f::parcela'']"
    by (simp add: enumera_raizes_def nos_raiz_def variaveis_soltas_def eh_raiz_def
          sem_dependencias_def)
  have dp: "desvio_padrao (map snd variaveis_soltas) = 1"
    by (simp add: desvio_padrao_def media_def variaveis_soltas_def Let_def)
  have sm: "sum_list (map (\<lambda>p. (case sem_coeficientes (fst p) of None \<Rightarrow> 1 | Some c \<Rightarrow> c)
                 + (real_of_int (snd p) + desvio_padrao (map snd variaveis_soltas)) + 2)
              variaveis_soltas) = 12"
    unfolding dp by (simp add: variaveis_soltas_def sem_coeficientes_def)
  have uns: "replicate (length funcoes_par) (replicate (length funcoes_par) (1::real))
               = [[1, 1], [1, 1]]"
    by (simp add: funcoes_par_def numeral_2_eq_2)
  have W: "replicate (length funcoes_par) (1 / real (length funcoes_par)) = [1 / 2, 1 / 2]"
    by (simp add: funcoes_par_def)
  have n2: "real (length funcoes_par) = 2" by (simp add: funcoes_par_def)
  have W2: "replicate (length funcoes_par) (1 / 2 :: real) = [1 / 2, 1 / 2]"
    by (simp add: funcoes_par_def)
  have sp: "(\<Sum>i<length funcoes_par. prob_de probabilidades_par (funcoes_par ! i)) = 1"
    by (simp add: funcoes_par_def prob_de_def probabilidades_par_def lessThan_Suc numeral_2_eq_2)
  have ne: "funcoes_par \<noteq> []" by (simp add: funcoes_par_def)
  have fa: "\<exists>e. eig_falha [[1, 1], [1, 1]] = Inl e" by (simp add: eig_falha_def)
  have pd: "par_dominante eig_uns [[1, 1], [1, 1]]"
    by (simp add: par_dominante_def eig_uns_def maximo_def coluna_def indice_def mat_vec_def)
  note par = neutral_values_without_edges
      [of funcoes_par matriz_nula probabilidades_par variaveis_soltas sem_dependencias
          "[''m.f::total'', ''m.f::parcela'']" eig_falha sem_coeficientes,
       OF q2 z2 d2 v1 v2 v3 v4]
  note dom = neutral_values_without_edges
      [of funcoes_par matriz_nula probabilidades_par variaveis_soltas sem_dependencias
          "[''m.f::total'', ''m.f::parcela'']" eig_uns sem_coeficientes,
       OF q2 z2 d2 v1 v2 v3 v4]
  note vazio = neutral_values_without_edges
      [of "[]" "[]" probabilidades_par variaveis_soltas sem_dependencias
          "[''m.f::total'', ''m.f::parcela'']" eig_falha sem_coeficientes,
       OF q0 z0 d0 v1 v2 v3 v4]
  from par have a: "\<exists>r. calcular_entropy_model funcoes_par (contar_acoplas matriz_nula)
         probabilidades_par = Inr r
        \<and> M (contar_acoplas matriz_nula) = 0 \<and> H_entropy r = 0 \<and> H_normalized r = 0"
    by blast
  from vazio have b: "calcular_judgment_matrix_model eig_falha [] [] probabilidades_par =
     Inr ([], Finita \<lparr>lambda_max = 0, sorting_vector = [], C_judgment = 0\<rparr>)"
    by auto
  from par fa have c: "calcular_judgment_matrix_model eig_falha funcoes_par matriz_nula
      probabilidades_par =
     Inr ([[1, 1], [1, 1]],
          Finita \<lparr>lambda_max = 0, sorting_vector = [1 / 2, 1 / 2], C_judgment = 0\<rparr>)"
    unfolding uns n2 W2 by blast
  from dom ne pd have d: "calcular_judgment_matrix_model eig_uns funcoes_par matriz_nula
      probabilidades_par =
     Inr ([[1, 1], [1, 1]],
          Finita \<lparr>lambda_max = 2, sorting_vector = [1 / 2, 1 / 2], C_judgment = 1 / 2\<rparr>)"
    unfolding uns n2 W2 sp by blast
  from par have e: "\<exists>r. AnalisadorDou variaveis_soltas sem_coeficientes sem_dependencias
           [''m.f::total'', ''m.f::parcela''] = Inr r \<and> HC_medio r = 2 \<and> C_vrm r = 12"
    unfolding sm by blast
  from a b c d e show ?thesis by (intro conjI)
qed


section \<open>Syntax trees\<close>

text \<open>
  The trees of Python's \<^verbatim>\<open>ast\<close> module, with the node classes the analysers tell apart:
  \<^verbatim>\<open>FunctionDef\<close> (its name, then its child nodes in field order: the \<^verbatim>\<open>arguments\<close> node,
  the statements of the body, the decorators, the annotation), \<^verbatim>\<open>Call\<close> (the callee
  expression, the positional arguments, the \<^verbatim>\<open>keyword\<close> nodes), \<^verbatim>\<open>Name\<close>, \<^verbatim>\<open>Attribute\<close>.
  Every other class (\<^verbatim>\<open>Module\<close>, \<^verbatim>\<open>ClassDef\<close>, \<^verbatim>\<open>AsyncFunctionDef\<close>, \<^verbatim>\<open>Lambda\<close>, statements,
  operators, constants, \<^verbatim>\<open>keyword\<close>, ...) is a \<open>Node\<close> with its child nodes in field order.
\<close>

datatype ast =
    FunctionDef string "ast list"
  | Call ast "ast list" "ast list"
  | Name string
  | Attribute ast string
  | Node "ast list"

section \<open>Elementary coupling of Briand et al. (analisador\_coupling\_briand.py)\<close>

text \<open>
  \<^verbatim>\<open>CouplingVisitor\<close>: the state is \<^verbatim>\<open>current_function\<close> and \<^verbatim>\<open>calls\<close>; a call record is
  \<^verbatim>\<open>(source, target, argument names)\<close>. \<^verbatim>\<open>ast.dump\<close>, the textual form of an argument that
  is not a name, is the parameter \<open>dump\<close>.
\<close>

type_synonym chamada = "string \<times> string \<times> string list"
type_synonym visitante = "string option \<times> chamada list"

definition verdadeiro :: "string option \<Rightarrow> bool" where
  \<comment> \<open>truth value of an \<^verbatim>\<open>Optional[str]\<close>\<close>
  "verdadeiro cur = (case cur of None \<Rightarrow> False | Some s \<Rightarrow> s \<noteq> [])"

fun arg_name :: "(ast \<Rightarrow> string) \<Rightarrow> ast \<Rightarrow> string" where
  "arg_name dump (Name ident) = ident"
| "arg_name dump arg = dump arg"

fun visit :: "(ast \<Rightarrow> string) \<Rightarrow> ast \<Rightarrow> visitante \<Rightarrow> visitante" where
  "visit dump (FunctionDef name filhos) (prev, calls) =
     (let (cur, calls') = fold (visit dump) filhos (Some name, calls)
      in (prev, calls'))"
| "visit dump (Call func args keywords) (cur, calls) =
     (let calls' = (case func of
                      Name called \<Rightarrow>
                        (case cur of
                           Some src \<Rightarrow> if src \<noteq> []
                                       then calls @ [(src, called, map (arg_name dump) args)]
                                       else calls
                         | None \<Rightarrow> calls)
                    | _ \<Rightarrow> calls)
      in fold (visit dump) (func # args @ keywords) (cur, calls'))"
| "visit dump (Name ident) st = st"
| "visit dump (Attribute objeto attr) st = visit dump objeto st"
| "visit dump (Node filhos) st = fold (visit dump) filhos st"


text \<open>
  \<^verbatim>\<open>ElementaryCoupling\<close> and \<^verbatim>\<open>ModuleCoupling\<close>. \<^verbatim>\<open>compute_value\<close> stores \<open>C * PC * N\<close> in
  \<^verbatim>\<open>value\<close>.
\<close>

record ElementaryCoupling =
  source :: string
  target :: string
  data_name :: string
  C :: real
  PC :: real
  N :: real
  valor :: real

record ModuleCoupling =
  element :: string
  elementary :: "ElementaryCoupling list"

definition total_coupling :: "ModuleCoupling \<Rightarrow> real" where
  "total_coupling mcoup = sum_list (map valor (elementary mcoup))"

definition build_ec_from_call :: "string \<Rightarrow> string \<Rightarrow> string \<Rightarrow> real \<Rightarrow> ElementaryCoupling" where
  "build_ec_from_call src tgt d N_d =
     \<lparr>source = src, target = tgt, data_name = d, C = 1, PC = 1, N = N_d, valor = 0\<rparr>"

definition compute_value :: "ElementaryCoupling \<Rightarrow> ElementaryCoupling" where
  "compute_value ec = ec\<lparr>valor := C ec * PC ec * N ec\<rparr>"

text \<open>\<^verbatim>\<open>data_usage_count\<close> is a \<^verbatim>\<open>defaultdict(int)\<close>: a name never counted reads as 0.\<close>

definition data_usage_count :: "chamada list \<Rightarrow> string \<Rightarrow> nat" where
  "data_usage_count calls =
     fold (\<lambda>(src, tgt, args) cnt. fold (\<lambda>name cnt. cnt(name := cnt name + 1)) args cnt)
          calls (\<lambda>_. 0)"

text \<open>
  \<^verbatim>\<open>analyze_source\<close>, from the parsed tree on (\<^verbatim>\<open>ast.parse\<close> is outside the model): the
  visitor runs from \<^verbatim>\<open>current_function = None\<close> and no calls, and the new couplings are
  appended to \<^verbatim>\<open>self.elementary\<close>.
\<close>

definition coletar_chamadas :: "(ast \<Rightarrow> string) \<Rightarrow> ast \<Rightarrow> chamada list" where
  "coletar_chamadas dump tree = snd (visit dump tree (None, []))"

definition analyze_source ::
  "(ast \<Rightarrow> string) \<Rightarrow> ast \<Rightarrow> ElementaryCoupling list \<Rightarrow> ElementaryCoupling list" where
  "analyze_source dump tree elementary0 =
     (let calls = coletar_chamadas dump tree;
          cnt = data_usage_count calls
      in fold (\<lambda>(src, tgt, args) els.
                 fold (\<lambda>d els. els @ [compute_value
                                          (build_ec_from_call src tgt d (real (cnt d)))])
                      args els)
              calls elementary0)"

text \<open>
  \<^verbatim>\<open>aggregate_by_module\<close>: \<^verbatim>\<open>results\<close> is a \<^verbatim>\<open>defaultdict\<close> whose missing entries are created
  as \<^verbatim>\<open>ModuleCoupling(element="")\<close> on first access.
\<close>

definition agrega :: "ElementaryCoupling \<Rightarrow> (string \<rightharpoonup> ModuleCoupling) \<Rightarrow> (string \<rightharpoonup> ModuleCoupling)" where
  "agrega ec results =
     (let key = source ec;
          novo = (case results key of
                    None \<Rightarrow> \<lparr>element = [], elementary = []\<rparr>
                  | Some mcoup \<Rightarrow> mcoup);
          nomeado = (if element novo = [] then novo\<lparr>element := key\<rparr> else novo)
      in results(key \<mapsto> nomeado\<lparr>elementary := elementary nomeado @ [ec]\<rparr>))"

definition aggregate_by_module :: "ElementaryCoupling list \<Rightarrow> (string \<rightharpoonup> ModuleCoupling)" where
  "aggregate_by_module els = fold agrega els Map.empty"

text \<open>The per-caller coupling \<open>MC(m)\<close> a report prints: 0 for a function without entry.\<close>

definition MC :: "(string \<rightharpoonup> ModuleCoupling) \<Rightarrow> string \<Rightarrow> real" where
  "MC results m = (case results m of None \<Rightarrow> 0 | Some mcoup \<Rightarrow> total_coupling mcoup)"

section \<open>Properties of the elementary-coupling model\<close>

definition acoplamentos_de :: "(string \<rightharpoonup> ModuleCoupling) \<Rightarrow> string \<Rightarrow> ElementaryCoupling list" where
  "acoplamentos_de results m = (case results m of None \<Rightarrow> [] | Some mcoup \<Rightarrow> elementary mcoup)"

definition ec_de :: "(string \<Rightarrow> nat) \<Rightarrow> string \<Rightarrow> string \<Rightarrow> string \<Rightarrow> ElementaryCoupling" where
  "ec_de cnt src tgt d =
     \<lparr>source = src, target = tgt, data_name = d, C = 1, PC = 1, N = real (cnt d),
      valor = real (cnt d)\<rparr>"

definition ecs_da_chamada :: "(string \<Rightarrow> nat) \<Rightarrow> chamada \<Rightarrow> ElementaryCoupling list" where
  "ecs_da_chamada cnt c = map (ec_de cnt (fst c) (fst (snd c))) (snd (snd c))"

lemma agrega_acoplamentos:
  "acoplamentos_de (agrega ec results) m =
     (if source ec = m then acoplamentos_de results m @ [ec] else acoplamentos_de results m)"
  by (auto simp: agrega_def acoplamentos_de_def Let_def split: option.splits)

lemma fold_agrega_acoplamentos:
  "acoplamentos_de (fold agrega els results) m =
     acoplamentos_de results m @ filter (\<lambda>ec. source ec = m) els"
  by (induction els arbitrary: results) (simp_all add: agrega_acoplamentos)

lemma aggregate_by_module_filter:
  "acoplamentos_de (aggregate_by_module els) m = filter (\<lambda>ec. source ec = m) els"
  unfolding aggregate_by_module_def fold_agrega_acoplamentos
  by (simp add: acoplamentos_de_def)

lemma MC_filter:
  "MC (aggregate_by_module els) m = sum_list (map valor (filter (\<lambda>ec. source ec = m) els))"
  using aggregate_by_module_filter [of els m]
  by (auto simp: MC_def acoplamentos_de_def total_coupling_def split: option.splits)

lemma fold_conta_args:
  "fold (\<lambda>name cnt. cnt(name := Suc (cnt name))) args cnt d = cnt d + count_list args d"
  by (induction args arbitrary: cnt) auto

lemma fold_conta_chamadas:
  "fold (\<lambda>(src, tgt, args) cnt. fold (\<lambda>name cnt. cnt(name := Suc (cnt name))) args cnt) calls cnt d
     = cnt d + sum_list (map (\<lambda>c. count_list (snd (snd c)) d) calls)"
  by (induction calls arbitrary: cnt) (auto simp: fold_conta_args)

lemma data_usage_count_soma:
  "data_usage_count calls d = sum_list (map (\<lambda>c. count_list (snd (snd c)) d) calls)"
  by (simp add: data_usage_count_def fold_conta_chamadas)

lemma fold_ecs_args:
  "fold (\<lambda>d els. els @ [compute_value (build_ec_from_call src tgt d (real (cnt d)))]) args els
     = els @ map (ec_de cnt src tgt) args"
  by (induction args arbitrary: els)
     (simp_all add: compute_value_def build_ec_from_call_def ec_de_def)

lemma fold_ecs_chamadas:
  "fold (\<lambda>(src, tgt, args) els.
           fold (\<lambda>d els. els @ [compute_value (build_ec_from_call src tgt d (real (cnt d)))])
                args els) calls els
     = els @ concat (map (ecs_da_chamada cnt) calls)"
  by (induction calls arbitrary: els) (auto simp: fold_ecs_args ecs_da_chamada_def)

lemma analyze_source_concat:
  "analyze_source dump tree els =
     els @ concat (map (ecs_da_chamada (data_usage_count (coletar_chamadas dump tree)))
                       (coletar_chamadas dump tree))"
  by (simp add: analyze_source_def Let_def fold_ecs_chamadas)

lemma filter_ecs_source:
  "filter (\<lambda>ec. source ec = m) (concat (map (ecs_da_chamada cnt) calls)) =
     concat (map (ecs_da_chamada cnt) (filter (\<lambda>c. fst c = m) calls))"
proof (induction calls)
  case Nil
  then show ?case by simp
next
  case (Cons c calls)
  have "filter (\<lambda>ec. source ec = m) (ecs_da_chamada cnt c) =
        (if fst c = m then ecs_da_chamada cnt c else [])"
    by (auto simp: ecs_da_chamada_def ec_de_def filter_empty_conv)
  then show ?case using Cons by simp
qed

lemma sum_list_filter_split:
  "sum_list (map f xs) =
     sum_list (map f (filter P xs)) + sum_list (map f (filter (\<lambda>x. \<not> P x) xs :: 'a list))"
  for f :: "'a \<Rightarrow> nat"
  by (induction xs) simp_all

text \<open>
  The call sites of a tree, read off the syntax: every \<^verbatim>\<open>Call\<close> node, in source order of
  the traversal, with the name of the innermost enclosing \<^verbatim>\<open>FunctionDef\<close> (\<open>None\<close> at module
  level), its callee expression and its positional arguments. The children of a
  \<^verbatim>\<open>FunctionDef\<close> are its parameters with their defaults, its body and its decorators.
\<close>

type_synonym sitio = "string option \<times> ast \<times> ast list"

fun sitios :: "string option \<Rightarrow> ast \<Rightarrow> sitio list" where
  "sitios cur (FunctionDef name cs) = concat (map (sitios (Some name)) cs)"
| "sitios cur (Call func args kws) =
     (cur, func, args) # concat (map (sitios cur) (func # args @ kws))"
| "sitios cur (Name ident) = []"
| "sitios cur (Attribute objeto attr) = sitios cur objeto"
| "sitios cur (Node cs) = concat (map (sitios cur) cs)"

fun eh_Name :: "ast \<Rightarrow> bool" where
  "eh_Name (Name ident) = True"
| "eh_Name t = False"

fun nome_de :: "ast \<Rightarrow> string" where
  "nome_de (Name ident) = ident"
| "nome_de t = []"

text \<open>
  A call site is recorded when it lies inside a function definition and its callee is a
  bare name; its record is the enclosing function, the callee name and the argument names.
\<close>

definition registrado :: "sitio \<Rightarrow> bool" where
  "registrado s \<longleftrightarrow> verdadeiro (fst s) \<and> eh_Name (fst (snd s))"

definition registro :: "(ast \<Rightarrow> string) \<Rightarrow> sitio \<Rightarrow> chamada" where
  "registro dump s =
     ((case fst s of None \<Rightarrow> [] | Some src \<Rightarrow> src), nome_de (fst (snd s)),
      map (arg_name dump) (snd (snd s)))"

definition registros :: "(ast \<Rightarrow> string) \<Rightarrow> sitio list \<Rightarrow> chamada list" where
  "registros dump ss = map (registro dump) (filter registrado ss)"

lemma registros_append [simp]:
  "registros dump (xs @ ys) = registros dump xs @ registros dump ys"
  by (simp add: registros_def)

lemma registros_Nil [simp]: "registros dump [] = []"
  by (simp add: registros_def)

lemma fold_visit_sitios:
  assumes "\<And>t calls. t \<in> set ts \<Longrightarrow>
             visit dump t (cur, calls) = (cur, calls @ registros dump (sitios cur t))"
  shows "fold (visit dump) ts (cur, calls) =
           (cur, calls @ registros dump (concat (map (sitios cur) ts)))"
  using assms by (induction ts arbitrary: calls) simp_all

lemma visit_sitios:
  "visit dump t (cur, calls) = (cur, calls @ registros dump (sitios cur t))"
proof (induction t arbitrary: cur calls)
  case (FunctionDef name cs)
  have "fold (visit dump) cs (Some name, calls) =
          (Some name, calls @ registros dump (concat (map (sitios (Some name)) cs)))"
    by (rule fold_visit_sitios) (rule FunctionDef)
  then show ?case by simp
next
  case (Call func args kws)
  have aqui: "(case func of
                 Name called \<Rightarrow>
                   (case cur of
                      Some src \<Rightarrow> if src \<noteq> []
                                  then calls @ [(src, called, map (arg_name dump) args)]
                                  else calls
                    | None \<Rightarrow> calls)
               | _ \<Rightarrow> calls) = calls @ registros dump [(cur, func, args)]"
    by (cases func; cases cur)
       (simp_all add: registros_def registrado_def registro_def verdadeiro_def)
  have "fold (visit dump) (func # args @ kws) (cur, calls @ registros dump [(cur, func, args)]) =
          (cur, (calls @ registros dump [(cur, func, args)]) @
                registros dump (concat (map (sitios cur) (func # args @ kws))))"
    by (rule fold_visit_sitios) (use Call in auto)
  then have "visit dump (Call func args kws) (cur, calls) =
          (cur, (calls @ registros dump [(cur, func, args)]) @
                registros dump (concat (map (sitios cur) (func # args @ kws))))"
    by (simp only: visit.simps aqui Let_def)
  also have "\<dots> = (cur, calls @ registros dump (sitios cur (Call func args kws)))"
    by (simp only: sitios.simps append_assoc registros_append [symmetric] append_Cons append_Nil)
  finally show ?case .
next
  case (Name ident)
  then show ?case by simp
next
  case (Attribute objeto attr)
  then show ?case by simp
next
  case (Node cs)
  show ?case by (simp add: fold_visit_sitios [OF Node])
qed

lemma coletar_chamadas_sitios:
  "coletar_chamadas dump tree = registros dump (sitios None tree)"
  by (simp add: coletar_chamadas_def visit_sitios)

lemma filter_registros:
  "filter (\<lambda>c. fst c = m) (registros dump ss) =
     registros dump (filter (\<lambda>s. fst s = Some m) ss)"
proof (induction ss)
  case Nil
  then show ?case by simp
next
  case (Cons s ss)
  have "fst (registro dump s) = m \<longleftrightarrow> fst s = Some m" if "registrado s"
    using that by (cases "fst s") (auto simp: registrado_def registro_def verdadeiro_def)
  then show ?case using Cons by (auto simp: registros_def)
qed

lemma arg_name_Name:
  "\<forall>t. dump t \<noteq> x \<Longrightarrow> arg_name dump t = x \<Longrightarrow> t = Name x"
  by (cases t) auto

lemma arg_names_fora:
  assumes "\<forall>t. dump t \<noteq> x" and "Name x \<notin> set args"
  shows "x \<notin> set (map (arg_name dump) args)"
proof
  assume "x \<in> set (map (arg_name dump) args)"
  then obtain t where t: "t \<in> set args" "arg_name dump t = x" by auto
  have "t = Name x" by (rule arg_name_Name [OF assms(1) t(2)])
  with t(1) assms(2) show False by simp
qed

lemma sum_list_concat_map:
  "sum_list (map f (concat xss)) = sum_list (map (\<lambda>xs. sum_list (map f xs)) xss)"
  for f :: "'a \<Rightarrow> real"
  by (induction xss) simp_all

lemma cenario_chamadas:
  assumes "filter (\<lambda>c. fst c = ''mmc'') calls = [(''mmc'', ''mdc'', [''a'', ''b''])]"
    and "\<forall>c\<in>set calls. fst c \<noteq> ''mmc'' \<longrightarrow>
           ''a'' \<notin> set (snd (snd c)) \<and> ''b'' \<notin> set (snd (snd c))"
    and "els = concat (map (ecs_da_chamada (data_usage_count calls)) calls)"
    and "results = aggregate_by_module els"
  shows "data_usage_count calls ''a'' = 1 \<and> data_usage_count calls ''b'' = 1 \<and>
         acoplamentos_de results ''mmc'' =
           [\<lparr>source = ''mmc'', target = ''mdc'', data_name = ''a'', C = 1, PC = 1, N = 1,
              valor = 1\<rparr>,
            \<lparr>source = ''mmc'', target = ''mdc'', data_name = ''b'', C = 1, PC = 1, N = 1,
              valor = 1\<rparr>] \<and>
         MC results ''mmc'' = 2"
proof -
  have outros: "sum_list (map (\<lambda>c. count_list (snd (snd c)) d)
                   (filter (\<lambda>c. \<not> fst c = ''mmc'') calls)) = 0"
    if "d = ''a'' \<or> d = ''b''" for d
    using assms(2) that by (auto simp: count_list_0_iff)
  have cnt: "data_usage_count calls d = 1" if "d = ''a'' \<or> d = ''b''" for d
    unfolding data_usage_count_soma
      sum_list_filter_split [where P = "\<lambda>c. fst c = ''mmc''" and xs = calls]
      assms(1) outros [OF that]
    using that by auto
  have ecs: "filter (\<lambda>ec. source ec = ''mmc'') els =
        [ec_de (data_usage_count calls) ''mmc'' ''mdc'' ''a'',
         ec_de (data_usage_count calls) ''mmc'' ''mdc'' ''b'']"
    unfolding assms(3)
    by (simp add: filter_ecs_source assms(1) ecs_da_chamada_def)
  have lista: "acoplamentos_de results ''mmc'' =
           [\<lparr>source = ''mmc'', target = ''mdc'', data_name = ''a'', C = 1, PC = 1, N = 1,
              valor = 1\<rparr>,
            \<lparr>source = ''mmc'', target = ''mdc'', data_name = ''b'', C = 1, PC = 1, N = 1,
              valor = 1\<rparr>]"
    unfolding assms(4) aggregate_by_module_filter ecs
    by (simp add: ec_de_def cnt)
  have total: "MC results ''mmc'' = 2"
    unfolding assms(4) MC_filter ecs by (simp add: ec_de_def cnt)
  show ?thesis
    using cnt lista total by simp
qed

text \<open>
  Claim C8, as the code has it: when the only call site inside the definition of \<^verbatim>\<open>mmc\<close>
  (its body, and also its decorators and default values, which the visitor walks under
  the name \<^verbatim>\<open>mmc\<close>) is \<^verbatim>\<open>mdc(a, b)\<close> and no other call site of the source passes \<^verbatim>\<open>a\<close> or \<^verbatim>\<open>b\<close>,
  then \<open>N[a] = N[b] = 1\<close>, the couplings of \<^verbatim>\<open>mmc\<close> are exactly \<open>EC[a]\<close> and \<open>EC[b]\<close> with value
  1 under the unit weights, \<open>MC(mmc) = 2\<close>, and the entry of \<^verbatim>\<open>mdc\<close> holds only couplings whose
  source is \<^verbatim>\<open>mdc\<close> (nothing of the call it receives). The textual form \<^verbatim>\<open>ast.dump\<close> gives to
  an argument that is not a name is never a bare \<^verbatim>\<open>a\<close> or \<^verbatim>\<open>b\<close>.
\<close>

theorem mdc_mmc_scenario:
  assumes "filter (\<lambda>s. fst s = Some ''mmc'') (sitios None tree) =
             [(Some ''mmc'', Name ''mdc'', [Name ''a'', Name ''b''])]"
    and "\<forall>s\<in>set (sitios None tree). fst s \<noteq> Some ''mmc'' \<longrightarrow>
           Name ''a'' \<notin> set (snd (snd s)) \<and> Name ''b'' \<notin> set (snd (snd s))"
    and "\<forall>t. dump t \<noteq> ''a'' \<and> dump t \<noteq> ''b''"
    and "calls = coletar_chamadas dump tree"
    and "els = analyze_source dump tree []"
    and "results = aggregate_by_module els"
  shows "data_usage_count calls ''a'' = 1 \<and> data_usage_count calls ''b'' = 1 \<and>
         acoplamentos_de results ''mmc'' =
           [\<lparr>source = ''mmc'', target = ''mdc'', data_name = ''a'', C = 1, PC = 1, N = 1,
              valor = 1\<rparr>,
            \<lparr>source = ''mmc'', target = ''mdc'', data_name = ''b'', C = 1, PC = 1, N = 1,
              valor = 1\<rparr>] \<and>
         MC results ''mmc'' = 2 \<and>
         acoplamentos_de results ''mdc'' = filter (\<lambda>ec. source ec = ''mdc'') els \<and>
         MC results ''mdc'' = sum_list (map valor (filter (\<lambda>ec. source ec = ''mdc'') els))"
proof -
  have cs: "calls = registros dump (sitios None tree)"
    by (simp add: assms(4) coletar_chamadas_sitios)
  have h1: "filter (\<lambda>c. fst c = ''mmc'') calls = [(''mmc'', ''mdc'', [''a'', ''b''])]"
    unfolding cs filter_registros assms(1)
    by (simp add: registros_def registrado_def registro_def verdadeiro_def)
  have da: "\<forall>t. dump t \<noteq> ''a''" and db: "\<forall>t. dump t \<noteq> ''b''" using assms(3) by simp_all
  have h2: "\<forall>c\<in>set calls. fst c \<noteq> ''mmc'' \<longrightarrow>
           ''a'' \<notin> set (snd (snd c)) \<and> ''b'' \<notin> set (snd (snd c))"
  proof (intro ballI impI)
    fix c assume c: "c \<in> set calls" and ne: "fst c \<noteq> ''mmc''"
    from c obtain st where st: "st \<in> set (sitios None tree)" "registrado st"
      and cst: "c = registro dump st"
      by (auto simp: cs registros_def)
    have "fst st \<noteq> Some ''mmc''" using ne by (auto simp: cst registro_def)
    then have fora: "Name ''a'' \<notin> set (snd (snd st))" "Name ''b'' \<notin> set (snd (snd st))"
      using assms(2) st(1) by simp_all
    have "''a'' \<notin> set (map (arg_name dump) (snd (snd st)))"
      by (rule arg_names_fora [OF da fora(1)])
    moreover have "''b'' \<notin> set (map (arg_name dump) (snd (snd st)))"
      by (rule arg_names_fora [OF db fora(2)])
    ultimately show "''a'' \<notin> set (snd (snd c)) \<and> ''b'' \<notin> set (snd (snd c))"
      by (simp add: cst registro_def)
  qed
  have e: "els = concat (map (ecs_da_chamada (data_usage_count calls)) calls)"
    by (simp add: assms(5) analyze_source_concat assms(4))
  from cenario_chamadas [OF h1 h2 e assms(6)]
  show ?thesis
    by (simp add: assms(6) aggregate_by_module_filter MC_filter)
qed

text \<open>
  The tree of
  \<^verbatim>\<open>def mdc(a, b): while b != 0: a, b = b, a % b; return a\<close> and
  \<^verbatim>\<open>def mmc(a, b): return a * b // mdc(a, b)\<close>; \<open>dump0\<close> stands for \<^verbatim>\<open>ast.dump\<close>.
\<close>

definition arvore_mdc :: ast where
  "arvore_mdc = Node [
     FunctionDef ''mdc'' [Node [Node [], Node []],
        Node [Node [Name ''b'', Node [], Node []], Node [Node [Name ''a'', Name ''b''], Node [Name ''b'', Node [Name ''a'', Node [], Name ''b'']]]],
        Node [Name ''a'']],
     FunctionDef ''mmc'' [Node [Node [], Node []],
        Node [Node [Node [Name ''a'', Node [], Name ''b''], Node [], Call (Name ''mdc'') [Name ''a'', Name ''b''] []]]]]"

definition dump0 :: "ast \<Rightarrow> string" where "dump0 t = ''Constant()''"

theorem mdc_mmc_scenario_witness:
  "sitios None arvore_mdc = [(Some ''mmc'', Name ''mdc'', [Name ''a'', Name ''b''])] \<and>
   data_usage_count (coletar_chamadas dump0 arvore_mdc) ''a'' = 1 \<and>
   data_usage_count (coletar_chamadas dump0 arvore_mdc) ''b'' = 1 \<and>
   MC (aggregate_by_module (analyze_source dump0 arvore_mdc [])) ''mmc'' = 2 \<and>
   MC (aggregate_by_module (analyze_source dump0 arvore_mdc [])) ''mdc'' = 0"
proof -
  have ss: "sitios None arvore_mdc = [(Some ''mmc'', Name ''mdc'', [Name ''a'', Name ''b''])]"
    by (simp add: arvore_mdc_def)
  have h1: "filter (\<lambda>s. fst s = Some ''mmc'') (sitios None arvore_mdc) =
              [(Some ''mmc'', Name ''mdc'', [Name ''a'', Name ''b''])]"
    by (simp add: ss)
  have h2: "\<forall>s\<in>set (sitios None arvore_mdc). fst s \<noteq> Some ''mmc'' \<longrightarrow>
           Name ''a'' \<notin> set (snd (snd s)) \<and> Name ''b'' \<notin> set (snd (snd s))"
    by (simp add: ss)
  have h3: "\<forall>t. dump0 t \<noteq> ''a'' \<and> dump0 t \<noteq> ''b''" by (simp add: dump0_def)
  have cs: "coletar_chamadas dump0 arvore_mdc = [(''mmc'', ''mdc'', [''a'', ''b''])]"
    by (simp add: coletar_chamadas_def arvore_mdc_def)
  have vazio: "filter (\<lambda>ec. source ec = ''mdc'') (analyze_source dump0 arvore_mdc []) = []"
    by (simp add: analyze_source_concat cs ecs_da_chamada_def ec_de_def)
  from mdc_mmc_scenario [OF h1 h2 h3 refl refl refl] ss vazio show ?thesis by simp
qed

text \<open>
  The same module with a decorator on the second function:
  \<^verbatim>\<open>@deco(1)\<close> above \<^verbatim>\<open>def mmc(a, b): return a * b // mdc(a, b)\<close>.
\<close>

definition arvore_decorada :: ast where
  "arvore_decorada = Node [
     FunctionDef ''mdc'' [Node [Node [], Node []],
        Node [Node [Name ''b'', Node [], Node []], Node [Node [Name ''a'', Name ''b''], Node [Name ''b'', Node [Name ''a'', Node [], Name ''b'']]]],
        Node [Name ''a'']],
     FunctionDef ''mmc'' [Node [Node [], Node []],
        Node [Node [Node [Name ''a'', Node [], Name ''b''], Node [], Call (Name ''mdc'') [Name ''a'', Name ''b''] []]],
        Call (Name ''deco'') [Node []] []]]"

text \<open>
  Claim C8 as stated fails: the body of the decorated \<^verbatim>\<open>mmc\<close> makes exactly one call,
  \<^verbatim>\<open>mdc(a, b)\<close>, and no other call site passes \<^verbatim>\<open>a\<close> or \<^verbatim>\<open>b\<close>, but the decorator call is recorded
  under \<^verbatim>\<open>mmc\<close> and its argument adds a third elementary coupling: \<open>MC(mmc) = 3\<close>.
\<close>

theorem decorator_call_counts_for_mmc:
  "sitios None arvore_decorada =
     [(Some ''mmc'', Name ''mdc'', [Name ''a'', Name ''b'']),
      (Some ''mmc'', Name ''deco'', [Node []])] \<and>
   coletar_chamadas dump0 arvore_decorada =
     [(''mmc'', ''mdc'', [''a'', ''b'']), (''mmc'', ''deco'', [''Constant()''])] \<and>
   data_usage_count (coletar_chamadas dump0 arvore_decorada) ''a'' = 1 \<and>
   data_usage_count (coletar_chamadas dump0 arvore_decorada) ''b'' = 1 \<and>
   MC (aggregate_by_module (analyze_source dump0 arvore_decorada [])) ''mmc'' = 3"
proof -
  have ss: "sitios None arvore_decorada =
     [(Some ''mmc'', Name ''mdc'', [Name ''a'', Name ''b'']),
      (Some ''mmc'', Name ''deco'', [Node []])]"
    by (simp add: arvore_decorada_def)
  have cs: "coletar_chamadas dump0 arvore_decorada =
     [(''mmc'', ''mdc'', [''a'', ''b'']), (''mmc'', ''deco'', [''Constant()''])]"
    by (simp add: coletar_chamadas_def arvore_decorada_def dump0_def)
  define cnt where "cnt = data_usage_count (coletar_chamadas dump0 arvore_decorada)"
  have na: "cnt ''a'' = 1" and nb: "cnt ''b'' = 1" and nc: "cnt ''Constant()'' = 1"
    by (simp_all add: cnt_def cs data_usage_count_soma)
  have "MC (aggregate_by_module (analyze_source dump0 arvore_decorada [])) ''mmc'' =
          sum_list (map valor (concat (map (ecs_da_chamada cnt)
            (filter (\<lambda>c. fst c = ''mmc'') (coletar_chamadas dump0 arvore_decorada)))))"
    unfolding MC_filter analyze_source_concat cnt_def [symmetric]
    by (simp add: filter_ecs_source)
  also have "\<dots> = 3"
    by (simp add: cs ecs_da_chamada_def ec_de_def na nb nc)
  finally have "MC (aggregate_by_module (analyze_source dump0 arvore_decorada [])) ''mmc'' = 3" .
  with ss cs na nb show ?thesis by (simp add: cnt_def)
qed


text \<open>
  Claim C10: the records of the visitor are exactly those of the call sites that lie
  inside a function definition and have a bare name as callee, in order. A call site at
  module level or through attribute access is none of them, whatever else the tree holds:
  it yields no elementary coupling and adds nothing to a reuse count \<open>N[d]\<close>, which counts
  the arguments of the recorded sites only, or to a coupling \<open>MC(m)\<close>, which sums \<open>N\<close> over
  the arguments of the recorded sites of \<open>m\<close> only.
\<close>

theorem unrecorded_call_sites:
  "coletar_chamadas dump tree = map (registro dump) (filter registrado (sitios None tree)) \<and>
   data_usage_count (coletar_chamadas dump tree) d =
     sum_list (map (\<lambda>s. count_list (map (arg_name dump) (snd (snd s))) d)
                   (filter registrado (sitios None tree))) \<and>
   analyze_source dump tree [] =
     concat (map (\<lambda>s. ecs_da_chamada (data_usage_count (coletar_chamadas dump tree))
                         (registro dump s))
                 (filter registrado (sitios None tree))) \<and>
   MC (aggregate_by_module (analyze_source dump tree [])) m =
     sum_list (map (\<lambda>s. sum_list (map (\<lambda>a. real (data_usage_count (coletar_chamadas dump tree)
                                                    (arg_name dump a)))
                                      (snd (snd s))))
                   (filter registrado (filter (\<lambda>s. fst s = Some m) (sitios None tree))))"
proof -
  define cnt where "cnt = data_usage_count (coletar_chamadas dump tree)"
  have a: "coletar_chamadas dump tree = map (registro dump) (filter registrado (sitios None tree))"
    by (simp add: coletar_chamadas_sitios registros_def)
  have b: "data_usage_count (coletar_chamadas dump tree) d =
     sum_list (map (\<lambda>s. count_list (map (arg_name dump) (snd (snd s))) d)
                   (filter registrado (sitios None tree)))"
    unfolding data_usage_count_soma by (simp add: a comp_def registro_def)
  have c: "analyze_source dump tree [] =
     concat (map (\<lambda>s. ecs_da_chamada cnt (registro dump s))
                 (filter registrado (sitios None tree)))"
    unfolding analyze_source_concat cnt_def [symmetric] by (simp add: a comp_def)
  have v: "sum_list (map valor (ecs_da_chamada cnt (registro dump s))) =
           sum_list (map (\<lambda>a. real (cnt (arg_name dump a))) (snd (snd s)))" for s
    by (simp add: ecs_da_chamada_def registro_def ec_de_def comp_def)
  have "MC (aggregate_by_module (analyze_source dump tree [])) m =
        sum_list (map valor (concat (map (ecs_da_chamada cnt)
           (filter (\<lambda>c. fst c = m) (registros dump (sitios None tree))))))"
    unfolding MC_filter analyze_source_concat cnt_def [symmetric]
    by (simp add: filter_ecs_source coletar_chamadas_sitios)
  also have "\<dots> = sum_list (map (\<lambda>s. sum_list (map (\<lambda>a. real (cnt (arg_name dump a)))
                                                  (snd (snd s))))
                   (filter registrado (filter (\<lambda>s. fst s = Some m) (sitios None tree))))"
    unfolding filter_registros sum_list_concat_map
    by (simp add: registros_def comp_def v)
  finally show ?thesis using a b c unfolding cnt_def by (intro conjI)
qed

text \<open>
  A module with the statement \<^verbatim>\<open>registrar(dados)\<close> at module level and
  \<^verbatim>\<open>def processa(dados): cliente.enviar(dados); valida(dados)\<close>: three call sites passing
  \<^verbatim>\<open>dados\<close>, of which only the last is recorded.
\<close>

definition arvore_mista :: ast where
  "arvore_mista = Node [
     Node [Call (Name ''registrar'') [Name ''dados''] []],
     FunctionDef ''processa'' [Node [Node []],
        Node [Call (Attribute (Name ''cliente'') ''enviar'') [Name ''dados''] []],
        Node [Call (Name ''valida'') [Name ''dados''] []]]]"

theorem unrecorded_call_sites_witness:
  "sitios None arvore_mista =
     [(None, Name ''registrar'', [Name ''dados'']),
      (Some ''processa'', Attribute (Name ''cliente'') ''enviar'', [Name ''dados'']),
      (Some ''processa'', Name ''valida'', [Name ''dados''])] \<and>
   coletar_chamadas dump0 arvore_mista = [(''processa'', ''valida'', [''dados''])] \<and>
   data_usage_count (coletar_chamadas dump0 arvore_mista) ''dados'' = 1 \<and>
   MC (aggregate_by_module (analyze_source dump0 arvore_mista [])) ''processa'' = 1 \<and>
   MC (aggregate_by_module (analyze_source dump0 arvore_mista [])) ''registrar'' = 0"
proof -
  have ss: "sitios None arvore_mista =
     [(None, Name ''registrar'', [Name ''dados'']),
      (Some ''processa'', Attribute (Name ''cliente'') ''enviar'', [Name ''dados'']),
      (Some ''processa'', Name ''valida'', [Name ''dados''])]"
    by (simp add: arvore_mista_def)
  have rg: "filter registrado (sitios None arvore_mista) =
              [(Some ''processa'', Name ''valida'', [Name ''dados''])]"
    unfolding ss by (simp add: registrado_def verdadeiro_def)
  have rp: "filter registrado (filter (\<lambda>s. fst s = Some ''processa'') (sitios None arvore_mista))
              = [(Some ''processa'', Name ''valida'', [Name ''dados''])]"
    unfolding ss by (simp add: registrado_def verdadeiro_def)
  have rr: "filter registrado (filter (\<lambda>s. fst s = Some ''registrar'') (sitios None arvore_mista))
              = []"
    unfolding ss by (simp add: registrado_def verdadeiro_def)
  note em_processa = unrecorded_call_sites [of dump0 arvore_mista "''dados''" "''processa''"]
  note em_registrar = unrecorded_call_sites [of dump0 arvore_mista "''dados''" "''registrar''"]
  have a: "coletar_chamadas dump0 arvore_mista = [(''processa'', ''valida'', [''dados''])]"
    using em_processa [THEN conjunct1] unfolding rg by (simp add: registro_def)
  have b: "data_usage_count (coletar_chamadas dump0 arvore_mista) ''dados'' = 1"
    using em_processa [THEN conjunct2, THEN conjunct1] unfolding rg by simp
  have c: "MC (aggregate_by_module (analyze_source dump0 arvore_mista [])) ''processa'' = 1"
    using em_processa [THEN conjunct2, THEN conjunct2, THEN conjunct2] unfolding rp
    by (simp add: b)
  have d: "MC (aggregate_by_module (analyze_source dump0 arvore_mista [])) ''registrar'' = 0"
    using em_registrar [THEN conjunct2, THEN conjunct2, THEN conjunct2] unfolding rr by simp
  from ss a b c d show ?thesis by (intro conjI)
qed


section \<open>Call extraction and adjacency matrix (extrator\_codigo.py, main.py)\<close>

text \<open>\<^verbatim>\<open>ast.iter_child_nodes\<close> and \<^verbatim>\<open>ast.walk\<close>: the node and all its descendants, breadth first.\<close>

fun filhos :: "ast \<Rightarrow> ast list" where
  "filhos (FunctionDef name cs) = cs"
| "filhos (Call func args keywords) = func # args @ keywords"
| "filhos (Name ident) = []"
| "filhos (Attribute objeto attr) = [objeto]"
| "filhos (Node cs) = cs"






text \<open>
  \<^verbatim>\<open>self.funcoes\<close> maps a qualified name to its record, of which the call analysis reads
  the \<^verbatim>\<open>"node"\<close> field; \<^verbatim>\<open>self.chamadas\<close> is a \<^verbatim>\<open>defaultdict(set)\<close>: per caller the set of
  callee names, here a list without repetition under a key created by the first \<^verbatim>\<open>add\<close>.
\<close>

type_synonym funcoes = "(string \<times> ast) list"








section \<open>Properties of the call graph\<close>










































definition substitui :: "string \<Rightarrow> ast \<Rightarrow> funcoes \<Rightarrow> funcoes" where
  "substitui f novo fns = map (\<lambda>(nome, node). (nome, if nome = f then novo else node)) fns"


lemma nomes_substitui [simp]: "map fst (substitui f novo fns) = map fst fns"
  by (induction fns) (auto simp: substitui_def)

















end
